theory Spec2Isabelle
  imports Main "HOL-Library.AList" "HOL-Library.Sublist"
begin

section \<open>Data model (app/models.py)\<close>

text \<open>
  The enumerations of \<^verbatim>\<open>app/models.py\<close>. Each is a Python \<^verbatim>\<open>str\<close> enum; the string
  values only matter where a request body is parsed (\<^verbatim>\<open>TaskStatus(data.status)\<close>).
\<close>

datatype TaskStatus = TODO | IN_PROGRESS | COMPLETED | OVERDUE

datatype TaskPriority = LOW | MEDIUM | HIGH | URGENT

datatype NotificationType = TASK_OVERDUE | TASK_ASSIGNED | COMMENT_ADDED

text \<open>
  Primary keys are UUIDs; only their identity matters, so they are natural numbers here.
  The columns are \<^verbatim>\<open>DateTime(timezone=True)\<close>: a stored value is an instant, modelled as
  an integer count of time units since the epoch. A nullable column is an \<open>option\<close>.
\<close>

type_synonym uuid = nat

type_synonym instant = int

record User =
  u_id :: uuid
  email :: string
  full_name :: string

text \<open>
  The columns of \<^verbatim>\<open>Task\<close> that the status engine, the notification code and the routes
  read or write. The description, the server-side timestamps \<^verbatim>\<open>created_at\<close> and
  \<^verbatim>\<open>updated_at\<close> and the tag, file and comment relationships are left out: no
  status transition, notification, cache purge or broadcast depends on them.
\<close>

record Task =
  task_id :: uuid
  title :: string
  status :: TaskStatus
  priority :: TaskPriority
  start_date :: "instant option"
  due_date :: "instant option"
  notify_overdue :: bool
  is_deleted :: bool
  created_by :: uuid
  assigned_to :: "uuid option"

text \<open>
  A notification row as the code constructs it. The primary key and \<^verbatim>\<open>created_at\<close> are
  filled in on insert and are not part of the constructed value; \<^verbatim>\<open>is_read\<close> takes its
  column default.
\<close>

record Notification =
  n_user_id :: uuid
  n_task_id :: "uuid option"
  n_type :: NotificationType
  n_title :: string
  n_message :: string
  n_is_read :: bool

text \<open>One call of \<^verbatim>\<open>send_email_notification\<close>: recipient address, subject, HTML body.\<close>

record Email =
  to_email :: string
  subject :: string
  body :: string

section \<open>Exceptions\<close>

text \<open>
  The exceptions the modelled code can raise. \<open>DataError\<close> is the database's rejection
  of a value that does not fit its column, raised at the flush that sends the row.
\<close>

datatype error = ValueError | TypeError | KeyError | DataError | HTTPException nat | AcceptError

section \<open>The periodic sweep (app/celery\_worker.py)\<close>

text \<open>
  SQL comparison of a nullable column with a value: \<^verbatim>\<open>Task.due_date < now\<close> is NULL, hence
  not satisfied, on a row whose \<^verbatim>\<open>due_date\<close> is NULL.
\<close>

definition sql_lt :: "instant option \<Rightarrow> instant \<Rightarrow> bool" where
  "sql_lt c v = (case c of None \<Rightarrow> False | Some d \<Rightarrow> d < v)"

definition sql_le :: "instant option \<Rightarrow> instant \<Rightarrow> bool" where
  "sql_le c v = (case c of None \<Rightarrow> False | Some d \<Rightarrow> d \<le> v)"

text \<open>
  The \<^verbatim>\<open>where\<close> clause of the sweep's \<^verbatim>\<open>select(Task)\<close>:
  \<^verbatim>\<open>Task.due_date < now, Task.status.notin_([COMPLETED, OVERDUE]), Task.is_deleted == False\<close>.
\<close>

definition overdue_where :: "instant \<Rightarrow> Task \<Rightarrow> bool" where
  "overdue_where now t =
     (sql_lt (due_date t) now \<and> status t \<noteq> COMPLETED \<and> status t \<noteq> OVERDUE
      \<and> is_deleted t = False)"

text \<open>
  \<^verbatim>\<open>task.status = TaskStatus.OVERDUE\<close> on a loaded row: the unit of work writes it back
  by primary key, with no condition on the status the row has by then.
\<close>

definition set_status :: "uuid \<Rightarrow> TaskStatus \<Rightarrow> Task list \<Rightarrow> Task list" where
  "set_status i st ts = map (\<lambda>t. if task_id t = i then t\<lparr>status := st\<rparr> else t) ts"

text \<open>\<^verbatim>\<open>task.assigned_to or task.created_by\<close>: a UUID object is always truthy.\<close>

definition notify_user :: "Task \<Rightarrow> uuid" where
  "notify_user t = (case assigned_to t of Some a \<Rightarrow> a | None \<Rightarrow> created_by t)"

text \<open>
  The \<^verbatim>\<open>Notification(...)\<close> object as the code builds it. Its title is the task title
  with 14 characters in front and is not shortened by the code.
\<close>

definition overdue_notification :: "Task \<Rightarrow> Notification" where
  "overdue_notification t =
     \<lparr>n_user_id = notify_user t,
      n_task_id = Some (task_id t),
      n_type = TASK_OVERDUE,
      n_title = ''Task Overdue: '' @ title t,
      n_message = ''Task '' @ [CHR 39] @ title t @ [CHR 39]
                  @ '' is past its due date. Please take action.'',
      n_is_read = False\<rparr>"

definition overdue_email :: "string \<Rightarrow> Task \<Rightarrow> Email" where
  "overdue_email addr t =
     \<lparr>to_email = addr,
      subject = ''Overdue: '' @ title t,
      body = ''<p>Task <strong>'' @ title t
             @ ''</strong> is overdue. Please update its status.</p>''\<rparr>"

text \<open>
  \<^verbatim>\<open>Notification.title\<close> is \<^verbatim>\<open>Column(String(255))\<close>, a \<^verbatim>\<open>character varying(255)\<close> of the
  PostgreSQL database the settings name. Storing a longer string there raises, unless
  the characters beyond the limit are all spaces, in which case the value is cut to the
  limit. \<^verbatim>\<open>Notification.message\<close> is \<^verbatim>\<open>Text\<close> and takes any string. A task title may
  have up to 255 characters (\<^verbatim>\<open>Task.title\<close> is \<^verbatim>\<open>String(255)\<close>, and the request schemas
  allow \<^verbatim>\<open>max_length=255\<close>), so a notification title may have up to 269. A string is
  the list of its characters, and the limit counts characters.
\<close>

definition varchar :: "nat \<Rightarrow> string \<Rightarrow> error + string" where
  "varchar n v =
     (if length v \<le> n then Inr v
      else if list_all (\<lambda>c. c = CHR '' '') (drop n v) then Inr (take n v)
      else Inl DataError)"

text \<open>The INSERT of one notification, and the flush of the notifications of a session.\<close>

definition insert_notification :: "Notification \<Rightarrow> error + Notification" where
  "insert_notification n =
     (case varchar 255 (n_title n) of
        Inl e \<Rightarrow> Inl e
      | Inr v \<Rightarrow> Inr (n\<lparr>n_title := v\<rparr>))"

fun flush_notifications :: "Notification list \<Rightarrow> error + Notification list" where
  "flush_notifications [] = Inr []"
| "flush_notifications (n # ns) =
     (case insert_notification n of
        Inl e \<Rightarrow> Inl e
      | Inr row \<Rightarrow>
          (case flush_notifications ns of
             Inl e \<Rightarrow> Inl e
           | Inr rows \<Rightarrow> Inr (row # rows)))"

text \<open>
  The state the sweep's loop threads: the task table as the session sees it, the
  notifications added to the session, the e-mail jobs handed to the queue with
  \<^verbatim>\<open>send_email_notification.delay\<close>, and the two counters.
\<close>

record sweep_state =
  sw_tasks :: "Task list"
  sw_added :: "Notification list"
  sw_queued :: "Email list"
  marked :: int
  notified :: int

text \<open>
  The e-mail branch of the sweep: \<^verbatim>\<open>if task.assigned_to:\<close> then
  \<^verbatim>\<open>assignee = session.get(User, task.assigned_to)\<close> and \<^verbatim>\<open>if assignee:\<close> the job is queued.
  The user table is a map from primary key to row.
\<close>

definition sweep_emails :: "(uuid \<rightharpoonup> User) \<Rightarrow> Task \<Rightarrow> Email list" where
  "sweep_emails users t =
     (case assigned_to t of
        None \<Rightarrow> []
      | Some a \<Rightarrow> (case users a of None \<Rightarrow> [] | Some u \<Rightarrow> [overdue_email (email u) t]))"

text \<open>One iteration of \<^verbatim>\<open>for task in overdue_tasks\<close>.\<close>

definition sweep_step :: "(uuid \<rightharpoonup> User) \<Rightarrow> Task \<Rightarrow> sweep_state \<Rightarrow> sweep_state" where
  "sweep_step users t s =
     (let s1 = s\<lparr>sw_tasks := set_status (task_id t) OVERDUE (sw_tasks s),
                 marked := marked s + 1\<rparr>
      in if notify_overdue t
         then s1\<lparr>sw_added := sw_added s1 @ [overdue_notification t],
                 notified := notified s1 + 1,
                 sw_queued := sw_queued s1 @ sweep_emails users t\<rparr>
         else s1)"

fun sweep_loop :: "(uuid \<rightharpoonup> User) \<Rightarrow> Task list \<Rightarrow> sweep_state \<Rightarrow> sweep_state" where
  "sweep_loop users [] s = s"
| "sweep_loop users (t # ts) s = sweep_loop users ts (sweep_step users t s)"

text \<open>
  The part of \<^verbatim>\<open>process_task_overdue_check\<close> after the select: the loop over the loaded
  rows \<^verbatim>\<open>overdue_tasks\<close> and \<^verbatim>\<open>session.commit()\<close>, on the table as it is when the session
  writes. The session sends its statements at a flush, at the latest at the commit. When
  the INSERT of a notification raises, the exception leaves the function: the
  \<^verbatim>\<open>with Session(engine)\<close> block closes the session without a commit, no row is changed,
  no notification is stored and no dictionary is returned. That outcome is \<open>Inl\<close>; which
  e-mail jobs were queued before the failing flush is not part of it. On success the
  result carries the committed table, the stored notification rows, the queued e-mail
  jobs and the two counters.
\<close>

definition run_selected ::
    "(uuid \<rightharpoonup> User) \<Rightarrow> Task list \<Rightarrow> Task list \<Rightarrow> error + sweep_state" where
  "run_selected users overdue_tasks table =
     (let s = sweep_loop users overdue_tasks
                \<lparr>sw_tasks = table, sw_added = [], sw_queued = [], marked = 0, notified = 0\<rparr>
      in case flush_notifications (sw_added s) of
           Inl e \<Rightarrow> Inl e
         | Inr rows \<Rightarrow> Inr (s\<lparr>sw_added := rows\<rparr>))"

text \<open>
  \<^verbatim>\<open>process_task_overdue_check\<close>: select the rows, then loop and commit. The dictionary
  it returns is
  \<^verbatim>\<open>{"status": "processed", "marked_overdue": marked, "notifications_sent": notified}\<close>.
\<close>

definition process_task_overdue_check ::
    "(uuid \<rightharpoonup> User) \<Rightarrow> instant \<Rightarrow> Task list \<Rightarrow> error + sweep_state" where
  "process_task_overdue_check users now db =
     run_selected users (filter (overdue_where now) db) db"

record sweep_result =
  r_status :: string
  marked_overdue :: int
  notifications_sent :: int

definition sweep_return :: "sweep_state \<Rightarrow> sweep_result" where
  "sweep_return s =
     \<lparr>r_status = ''processed'', marked_overdue = marked s, notifications_sent = notified s\<rparr>"

subsection \<open>Several evaluators on one table\<close>



section \<open>Startup reconciliation (app/main.py, lifespan)\<close>

text \<open>
  The startup pass runs the same selection, then a bulk update for start dates. Its
  e-mail branch differs from the sweep's: it looks the recipient
  \<^verbatim>\<open>notify_user_id\<close> up (assignee or creator) and calls \<^verbatim>\<open>send_email_notification\<close>
  directly when \<^verbatim>\<open>u and u.email\<close>.
\<close>

record lifespan_state =
  ls_tasks :: "Task list"
  ls_added :: "Notification list"
  ls_sent :: "Email list"

definition lifespan_emails :: "(uuid \<rightharpoonup> User) \<Rightarrow> Task \<Rightarrow> Email list" where
  "lifespan_emails users t =
     (case users (notify_user t) of
        None \<Rightarrow> []
      | Some u \<Rightarrow> if email u \<noteq> [] then [overdue_email (email u) t] else [])"

definition lifespan_step :: "(uuid \<rightharpoonup> User) \<Rightarrow> Task \<Rightarrow> lifespan_state \<Rightarrow> lifespan_state" where
  "lifespan_step users t s =
     (let s1 = s\<lparr>ls_tasks := set_status (task_id t) OVERDUE (ls_tasks s)\<rparr>
      in if notify_overdue t
         then s1\<lparr>ls_added := ls_added s1 @ [overdue_notification t],
                 ls_sent := ls_sent s1 @ lifespan_emails users t\<rparr>
         else s1)"

fun lifespan_loop :: "(uuid \<rightharpoonup> User) \<Rightarrow> Task list \<Rightarrow> lifespan_state \<Rightarrow> lifespan_state" where
  "lifespan_loop users [] s = s"
| "lifespan_loop users (t # ts) s = lifespan_loop users ts (lifespan_step users t s)"

text \<open>
  The \<^verbatim>\<open>where\<close> clause of the bulk \<^verbatim>\<open>update(Task)\<close>:
  \<^verbatim>\<open>Task.start_date <= now, Task.status == TaskStatus.TODO, Task.is_deleted == False\<close>.
\<close>

definition start_where :: "instant \<Rightarrow> Task \<Rightarrow> bool" where
  "start_where now t =
     (sql_le (start_date t) now \<and> status t = TODO \<and> is_deleted t = False)"

definition start_update :: "instant \<Rightarrow> Task list \<Rightarrow> Task list" where
  "start_update now ts =
     map (\<lambda>t. if start_where now t then t\<lparr>status := IN_PROGRESS\<rparr> else t) ts"

text \<open>
  The body of the \<^verbatim>\<open>try\<close> block of \<^verbatim>\<open>lifespan\<close>. The session flushes the pending
  status changes before the bulk update executes (autoflush), so the update sees the
  rows as step 1 left them. When the INSERT of a notification raises, the session's
  transaction is lost: whether the exception is swallowed by the inner
  \<^verbatim>\<open>except Exception: pass\<close> around the user lookup or reaches the outer one, no later
  statement of the block succeeds, the commit is not reached and startup goes on with
  the table as it was. That outcome is \<open>None\<close>; which e-mails were sent before the
  failing flush is not part of it. On success the result carries the committed table,
  the stored notification rows and the e-mails sent.
\<close>

definition lifespan_transitions ::
    "(uuid \<rightharpoonup> User) \<Rightarrow> instant \<Rightarrow> Task list \<Rightarrow> lifespan_state option" where
  "lifespan_transitions users now db =
     (let s = lifespan_loop users (filter (overdue_where now) db)
                \<lparr>ls_tasks = db, ls_added = [], ls_sent = []\<rparr>
      in case flush_notifications (ls_added s) of
           Inl e \<Rightarrow> None
         | Inr rows \<Rightarrow>
             Some (s\<lparr>ls_added := rows, ls_tasks := start_update now (ls_tasks s)\<rparr>))"

section \<open>Inline transitions of the overview (app/routes/analytics.py)\<close>

text \<open>
  \<^verbatim>\<open>get_overview\<close>, when the cached overview is missing, runs two bulk updates before it
  counts: the first with the \<^verbatim>\<open>where\<close> clause of the sweep's selection and
  \<^verbatim>\<open>values(status=TaskStatus.OVERDUE)\<close>, the second the start-date update of the
  startup pass. It creates no notification.
\<close>

definition overdue_update :: "instant \<Rightarrow> Task list \<Rightarrow> Task list" where
  "overdue_update now ts =
     map (\<lambda>t. if overdue_where now t then t\<lparr>status := OVERDUE\<rparr> else t) ts"

definition overview_transitions :: "instant \<Rightarrow> Task list \<Rightarrow> Task list" where
  "overview_transitions now db = start_update now (overdue_update now db)"

section \<open>Connection registry and broadcast (app/websocket.py)\<close>

text \<open>
  A \<^verbatim>\<open>WebSocket\<close> object is compared by identity, so a session is a number. The
  registry is the dictionary \<^verbatim>\<open>active_connections\<close>, in insertion order, from user id
  to the list of that user's sessions.
\<close>

type_synonym WebSocket = nat

type_synonym registry = "(string \<times> WebSocket list) list"

datatype json = JStr string | JId uuid

record ws_message =
  m_type :: string
  m_data :: "(string \<times> json) list"

text \<open>
  A completed \<^verbatim>\<open>ws.send_json(message)\<close>: the bucket the loop was in, the session and
  the message.
\<close>

type_synonym delivery = "string \<times> WebSocket \<times> ws_message"

text \<open>
  \<^verbatim>\<open>connect\<close>: \<^verbatim>\<open>await websocket.accept()\<close> may raise, and then nothing is registered;
  otherwise the session is appended to the user's list, which is created when missing.
  The subscript \<^verbatim>\<open>self.active_connections[user_id]\<close> raises \<^verbatim>\<open>KeyError\<close> on a missing
  key, which the statement before it rules out.
\<close>

definition connect :: "bool \<Rightarrow> registry \<Rightarrow> WebSocket \<Rightarrow> string \<Rightarrow> error + registry" where
  "connect accept_ok reg websocket user_id =
     (if \<not> accept_ok then Inl AcceptError
      else let reg1 = (case map_of reg user_id of
                         None \<Rightarrow> AList.update user_id [] reg
                       | Some _ \<Rightarrow> reg)
           in case map_of reg1 user_id of
                None \<Rightarrow> Inl KeyError
              | Some conns \<Rightarrow> Inr (AList.update user_id (conns @ [websocket]) reg1))"

definition disconnect :: "registry \<Rightarrow> WebSocket \<Rightarrow> string \<Rightarrow> registry" where
  "disconnect reg websocket user_id =
     (case map_of reg user_id of
        None \<Rightarrow> reg
      | Some conns \<Rightarrow>
          (let conns' = filter (\<lambda>ws. ws \<noteq> websocket) conns;
               reg1 = AList.update user_id conns' reg
           in if conns' = [] then AList.delete user_id reg1 else reg1))"

text \<open>
  The inner loop of \<^verbatim>\<open>broadcast\<close> and of \<^verbatim>\<open>send_personal\<close>:
  \<^verbatim>\<open>try: await ws.send_json(message) except Exception: pass\<close>. Whether a send raises is
  a property of the session, given by \<open>send_ok\<close>.
\<close>

fun send_each :: "(WebSocket \<Rightarrow> bool) \<Rightarrow> string \<Rightarrow> ws_message \<Rightarrow> WebSocket list \<Rightarrow> delivery list" where
  "send_each send_ok user_id message [] = []"
| "send_each send_ok user_id message (ws # rest) =
     (if send_ok ws then (user_id, ws, message) # send_each send_ok user_id message rest
      else send_each send_ok user_id message rest)"

definition send_personal :: "(WebSocket \<Rightarrow> bool) \<Rightarrow> registry \<Rightarrow> string \<Rightarrow> ws_message \<Rightarrow> delivery list" where
  "send_personal send_ok reg user_id message =
     (case map_of reg user_id of
        None \<Rightarrow> []
      | Some conns \<Rightarrow> send_each send_ok user_id message conns)"

text \<open>
  The outer loop of \<^verbatim>\<open>broadcast\<close> over \<^verbatim>\<open>active_connections.items()\<close>;
  \<^verbatim>\<open>exclude_user\<close> defaults to \<^verbatim>\<open>None\<close>, which equals no user id.
\<close>

fun broadcast_loop ::
    "(WebSocket \<Rightarrow> bool) \<Rightarrow> ws_message \<Rightarrow> string option \<Rightarrow> registry \<Rightarrow> delivery list" where
  "broadcast_loop send_ok message exclude_user [] = []"
| "broadcast_loop send_ok message exclude_user ((user_id, connections) # rest) =
     (if Some user_id = exclude_user then broadcast_loop send_ok message exclude_user rest
      else send_each send_ok user_id message connections
           @ broadcast_loop send_ok message exclude_user rest)"

text \<open>
  \<^verbatim>\<open>broadcast\<close> returns the registry as it leaves it next to the deliveries it made: the
  method has no statement that assigns to or deletes from \<^verbatim>\<open>active_connections\<close>.
\<close>

definition broadcast ::
    "(WebSocket \<Rightarrow> bool) \<Rightarrow> registry \<Rightarrow> ws_message \<Rightarrow> string option \<Rightarrow> registry \<times> delivery list" where
  "broadcast send_ok reg message exclude_user =
     (reg, broadcast_loop send_ok message exclude_user reg)"

section \<open>Cache helpers (app/cache.py)\<close>

text \<open>
  The cache is the Redis key space with string values. \<^verbatim>\<open>cache_delete_pattern\<close> deletes
  every key that \<^verbatim>\<open>scan_iter(match=pattern)\<close> yields. Redis matches glob-style; the
  patterns of this program consist of literal characters and \<^verbatim>\<open>*\<close>, and the matcher
  below covers these and \<^verbatim>\<open>?\<close> (no character classes, no escapes).
\<close>

type_synonym cache_store = "string \<rightharpoonup> string"

fun glob_match :: "string \<Rightarrow> string \<Rightarrow> bool" where
  "glob_match [] s = (s = [])"
| "glob_match (p # ps) [] = (p = CHR ''*'' \<and> glob_match ps [])"
| "glob_match (p # ps) (c # cs) =
     (if p = CHR ''*'' then glob_match ps (c # cs) \<or> glob_match (p # ps) cs
      else (p = CHR ''?'' \<or> p = c) \<and> glob_match ps cs)"

definition cache_get :: "cache_store \<Rightarrow> string \<Rightarrow> string option" where
  "cache_get c key = c key"

definition cache_set :: "cache_store \<Rightarrow> string \<Rightarrow> string \<Rightarrow> cache_store" where
  "cache_set c key v = c(key \<mapsto> v)"

definition cache_delete :: "cache_store \<Rightarrow> string \<Rightarrow> cache_store" where
  "cache_delete c key = c(key := None)"

definition cache_delete_pattern :: "cache_store \<Rightarrow> string \<Rightarrow> cache_store" where
  "cache_delete_pattern c pattern = (\<lambda>key. if glob_match pattern key then None else c key)"


section \<open>Request bodies (app/schemas.py)\<close>

text \<open>
  A \<^verbatim>\<open>datetime\<close> parsed from a request body carries a UTC offset or not. An aware value
  is an instant; a naive one is a wall-clock reading, and Python raises \<^verbatim>\<open>TypeError\<close>
  when it is compared with the aware \<^verbatim>\<open>datetime.now(timezone.utc)\<close>.
\<close>

datatype py_datetime = Aware instant | Naive int

record TaskCreate =
  tc_title :: string
  tc_status :: "string option"
  tc_priority :: "string option"
  tc_start_date :: "py_datetime option"
  tc_due_date :: "py_datetime option"
  tc_assigned_to :: "uuid option"
  tc_notify_overdue :: "bool option"

record TaskUpdate =
  tu_title :: "string option"
  tu_status :: "string option"
  tu_priority :: "string option"
  tu_start_date :: "py_datetime option"
  tu_due_date :: "py_datetime option"
  tu_assigned_to :: "uuid option"
  tu_notify_overdue :: "bool option"

record Comment =
  c_id :: uuid
  c_content :: string
  c_content_html :: "string option"
  c_task_id :: uuid
  c_user_id :: uuid
  c_is_deleted :: bool

text \<open>The enum constructors \<^verbatim>\<open>TaskStatus(v)\<close> and \<^verbatim>\<open>TaskPriority(v)\<close>: lookup by value.\<close>

definition TaskStatus_of :: "string \<Rightarrow> error + TaskStatus" where
  "TaskStatus_of v =
     (if v = ''todo'' then Inr TODO
      else if v = ''in_progress'' then Inr IN_PROGRESS
      else if v = ''completed'' then Inr COMPLETED
      else if v = ''overdue'' then Inr OVERDUE
      else Inl ValueError)"

definition TaskPriority_of :: "string \<Rightarrow> error + TaskPriority" where
  "TaskPriority_of v =
     (if v = ''low'' then Inr LOW
      else if v = ''medium'' then Inr MEDIUM
      else if v = ''high'' then Inr HIGH
      else if v = ''urgent'' then Inr URGENT
      else Inl ValueError)"

section \<open>Task routes (app/routes/tasks.py)\<close>

text \<open>
  What a request handler can change: the task and comment tables, the cache, and the
  sessions that received a broadcast. The registry itself is only read by the handlers.
\<close>

record app_state =
  db_tasks :: "Task list"
  db_comments :: "Comment list"
  cache :: cache_store
  active_connections :: registry
  deliveries :: "delivery list"

text \<open>\<^verbatim>\<open>TaskStatus(data.status) if data.status else TaskStatus.TODO\<close>.\<close>

definition requested_status :: "string option \<Rightarrow> error + TaskStatus" where
  "requested_status v =
     (case v of None \<Rightarrow> Inr TODO
      | Some x \<Rightarrow> if x = [] then Inr TODO else TaskStatus_of x)"

definition requested_priority :: "string option \<Rightarrow> error + TaskPriority" where
  "requested_priority v =
     (case v of None \<Rightarrow> Inr MEDIUM
      | Some x \<Rightarrow> if x = [] then Inr MEDIUM else TaskPriority_of x)"

text \<open>
  The block under \<^verbatim>\<open># Auto-transition based on due_date\<close>, the same text in
  \<^verbatim>\<open>create_task\<close> and in \<^verbatim>\<open>bulk_create_tasks\<close>:
  \<^verbatim>\<open>
  if data.due_date:
      if data.due_date < now and initial_status not in (COMPLETED, OVERDUE):
          initial_status = OVERDUE
      elif data.due_date >= now and initial_status == TODO:
          initial_status = IN_PROGRESS
  \<close>
  A \<^verbatim>\<open>datetime\<close> is always truthy, so the outer test is a test for \<^verbatim>\<open>None\<close>. The
  request's \<^verbatim>\<open>start_date\<close> is not read.
\<close>

definition auto_transition :: "instant \<Rightarrow> py_datetime option \<Rightarrow> TaskStatus \<Rightarrow> error + TaskStatus" where
  "auto_transition now due initial_status =
     (case due of
        None \<Rightarrow> Inr initial_status
      | Some (Naive w) \<Rightarrow> Inl TypeError
      | Some (Aware d) \<Rightarrow>
          Inr (if d < now \<and> initial_status \<noteq> COMPLETED \<and> initial_status \<noteq> OVERDUE
               then OVERDUE
               else if d \<ge> now \<and> initial_status = TODO then IN_PROGRESS
               else initial_status))"

text \<open>
  The value a \<^verbatim>\<open>timestamptz\<close> column holds after a \<^verbatim>\<open>datetime\<close> is written to it. An
  aware value is stored as the instant it denotes; the instant the database driver makes
  of a naive value is the parameter \<open>local\<close>.
\<close>

definition db_instant :: "(int \<Rightarrow> instant) \<Rightarrow> py_datetime \<Rightarrow> instant" where
  "db_instant local dt = (case dt of Aware d \<Rightarrow> d | Naive w \<Rightarrow> local w)"

text \<open>
  The \<^verbatim>\<open>Task(...)\<close> constructor call of both creation handlers. It passes no
  \<^verbatim>\<open>start_date\<close>, so the column is NULL; \<^verbatim>\<open>is_deleted\<close> takes its column default.
\<close>

definition build_task ::
    "(int \<Rightarrow> instant) \<Rightarrow> uuid \<Rightarrow> User \<Rightarrow> TaskCreate \<Rightarrow> TaskStatus \<Rightarrow> TaskPriority \<Rightarrow> Task" where
  "build_task local new_id current_user data initial_status pr =
     \<lparr>task_id = new_id,
      title = tc_title data,
      status = initial_status,
      priority = pr,
      start_date = None,
      due_date = map_option (db_instant local) (tc_due_date data),
      notify_overdue = (case tc_notify_overdue data of None \<Rightarrow> False | Some b \<Rightarrow> b),
      is_deleted = False,
      created_by = u_id current_user,
      assigned_to = tc_assigned_to data\<rparr>"

text \<open>
  The steps shared by both creation handlers up to the constructed row; each may raise.
\<close>

definition prepare_task ::
    "(int \<Rightarrow> instant) \<Rightarrow> instant \<Rightarrow> uuid \<Rightarrow> User \<Rightarrow> TaskCreate \<Rightarrow> error + Task" where
  "prepare_task local now new_id current_user data =
     (case requested_status (tc_status data) of
        Inl e \<Rightarrow> Inl e
      | Inr st0 \<Rightarrow>
          (case auto_transition now (tc_due_date data) st0 of
             Inl e \<Rightarrow> Inl e
           | Inr initial_status \<Rightarrow>
               (case requested_priority (tc_priority data) of
                  Inl e \<Rightarrow> Inl e
                | Inr pr \<Rightarrow> Inr (build_task local new_id current_user data initial_status pr))))"

definition create_task ::
    "(WebSocket \<Rightarrow> bool) \<Rightarrow> (int \<Rightarrow> instant) \<Rightarrow> instant \<Rightarrow> uuid \<Rightarrow> User \<Rightarrow> TaskCreate
      \<Rightarrow> app_state \<Rightarrow> error + (app_state \<times> Task)" where
  "create_task send_ok local now new_id current_user data s =
     (case prepare_task local now new_id current_user data of
        Inl e \<Rightarrow> Inl e
      | Inr task \<Rightarrow>
          (let s1 = s\<lparr>db_tasks := db_tasks s @ [task]\<rparr>;
               s2 = s1\<lparr>cache := cache_delete_pattern (cache s1) ''tasks:*''\<rparr>;
               s3 = s2\<lparr>cache := cache_delete_pattern (cache s2) ''analytics:*''\<rparr>;
               message = \<lparr>m_type = ''task_created'',
                          m_data = [(''task_id'', JId (task_id task)),
                                    (''title'', JStr (title task))]\<rparr>;
               s4 = s3\<lparr>deliveries := deliveries s3
                          @ snd (broadcast send_ok (active_connections s3) message None)\<rparr>
           in Inr (s4, task)))"

text \<open>
  The loop of \<^verbatim>\<open>bulk_create_tasks\<close>; \<open>gen\<close> supplies the primary key of the k-th row
  created by this request. An exception leaves the loop and the handler.
\<close>

fun bulk_loop ::
    "(int \<Rightarrow> instant) \<Rightarrow> instant \<Rightarrow> (nat \<Rightarrow> uuid) \<Rightarrow> User \<Rightarrow> TaskCreate list
      \<Rightarrow> Task list \<Rightarrow> Task list \<Rightarrow> error + (Task list \<times> Task list)" where
  "bulk_loop local now gen current_user [] tbl created = Inr (tbl, created)"
| "bulk_loop local now gen current_user (t # ts) tbl created =
     (case prepare_task local now (gen (length created)) current_user t of
        Inl e \<Rightarrow> Inl e
      | Inr task \<Rightarrow> bulk_loop local now gen current_user ts (tbl @ [task]) (created @ [task]))"

definition bulk_create_tasks ::
    "(int \<Rightarrow> instant) \<Rightarrow> instant \<Rightarrow> (nat \<Rightarrow> uuid) \<Rightarrow> User \<Rightarrow> TaskCreate list
      \<Rightarrow> app_state \<Rightarrow> error + (app_state \<times> Task list)" where
  "bulk_create_tasks local now gen current_user data_tasks s =
     (case bulk_loop local now gen current_user data_tasks (db_tasks s) [] of
        Inl e \<Rightarrow> Inl e
      | Inr (tbl, created) \<Rightarrow>
          (let s1 = s\<lparr>db_tasks := tbl\<rparr>;
               s2 = s1\<lparr>cache := cache_delete_pattern (cache s1) ''tasks:*''\<rparr>;
               s3 = s2\<lparr>cache := cache_delete_pattern (cache s2) ''analytics:*''\<rparr>
           in Inr (s3, created)))"

text \<open>
  \<^verbatim>\<open>select(Task).where(Task.id == task_id, Task.is_deleted == False)\<close> with
  \<^verbatim>\<open>scalar_one_or_none()\<close>, and the write of a changed row back by primary key.
\<close>

definition find_task :: "uuid \<Rightarrow> Task list \<Rightarrow> Task option" where
  "find_task i ts = find (\<lambda>t. task_id t = i \<and> is_deleted t = False) ts"

definition write_task :: "Task \<Rightarrow> Task list \<Rightarrow> Task list" where
  "write_task t' ts = map (\<lambda>t. if task_id t = task_id t' then t' else t) ts"

text \<open>
  The field assignments of \<^verbatim>\<open>update_task\<close>, in the handler's order. The request's
  \<^verbatim>\<open>start_date\<close> is not read; \<^verbatim>\<open>TaskStatus(data.status)\<close> and
  \<^verbatim>\<open>TaskPriority(data.priority)\<close> may raise.
\<close>

definition apply_update :: "(int \<Rightarrow> instant) \<Rightarrow> TaskUpdate \<Rightarrow> Task \<Rightarrow> error + Task" where
  "apply_update local data task =
     (let t1 = (case tu_title data of None \<Rightarrow> task | Some v \<Rightarrow> task\<lparr>title := v\<rparr>)
      in case (case tu_status data of
                 None \<Rightarrow> Inr t1
               | Some v \<Rightarrow> (case TaskStatus_of v of
                              Inl e \<Rightarrow> Inl e
                            | Inr st \<Rightarrow> Inr (t1\<lparr>status := st\<rparr>))) of
           Inl e \<Rightarrow> Inl e
         | Inr t2 \<Rightarrow>
             (case (case tu_priority data of
                      None \<Rightarrow> Inr t2
                    | Some v \<Rightarrow> (case TaskPriority_of v of
                                   Inl e \<Rightarrow> Inl e
                                 | Inr pr \<Rightarrow> Inr (t2\<lparr>priority := pr\<rparr>))) of
                Inl e \<Rightarrow> Inl e
              | Inr t3 \<Rightarrow>
                  (let t4 = (case tu_due_date data of
                               None \<Rightarrow> t3
                             | Some v \<Rightarrow> t3\<lparr>due_date := Some (db_instant local v)\<rparr>);
                       t5 = (case tu_assigned_to data of
                               None \<Rightarrow> t4
                             | Some v \<Rightarrow> t4\<lparr>assigned_to := Some v\<rparr>);
                       t6 = (case tu_notify_overdue data of
                               None \<Rightarrow> t5
                             | Some v \<Rightarrow> t5\<lparr>notify_overdue := v\<rparr>)
                   in Inr t6)))"

definition update_task ::
    "(WebSocket \<Rightarrow> bool) \<Rightarrow> (int \<Rightarrow> instant) \<Rightarrow> uuid \<Rightarrow> TaskUpdate
      \<Rightarrow> app_state \<Rightarrow> error + (app_state \<times> Task)" where
  "update_task send_ok local i data s =
     (case find_task i (db_tasks s) of
        None \<Rightarrow> Inl (HTTPException 404)
      | Some task \<Rightarrow>
          (case apply_update local data task of
             Inl e \<Rightarrow> Inl e
           | Inr task' \<Rightarrow>
               (let s1 = s\<lparr>db_tasks := write_task task' (db_tasks s)\<rparr>;
                    s2 = s1\<lparr>cache := cache_delete_pattern (cache s1) ''tasks:*''\<rparr>;
                    s3 = s2\<lparr>cache := cache_delete_pattern (cache s2) ''analytics:*''\<rparr>;
                    message = \<lparr>m_type = ''task_updated'',
                               m_data = [(''task_id'', JId (task_id task')),
                                         (''title'', JStr (title task'))]\<rparr>;
                    s4 = s3\<lparr>deliveries := deliveries s3
                               @ snd (broadcast send_ok (active_connections s3) message None)\<rparr>
                in Inr (s4, task'))))"

definition delete_task ::
    "(WebSocket \<Rightarrow> bool) \<Rightarrow> uuid \<Rightarrow> app_state \<Rightarrow> error + app_state" where
  "delete_task send_ok i s =
     (case find_task i (db_tasks s) of
        None \<Rightarrow> Inl (HTTPException 404)
      | Some task \<Rightarrow>
          (let task' = task\<lparr>is_deleted := True\<rparr>;
               s1 = s\<lparr>db_tasks := write_task task' (db_tasks s)\<rparr>;
               s2 = s1\<lparr>cache := cache_delete_pattern (cache s1) ''tasks:*''\<rparr>;
               s3 = s2\<lparr>cache := cache_delete_pattern (cache s2) ''analytics:*''\<rparr>;
               message = \<lparr>m_type = ''task_deleted'',
                          m_data = [(''task_id'', JId (task_id task'))]\<rparr>;
               s4 = s3\<lparr>deliveries := deliveries s3
                          @ snd (broadcast send_ok (active_connections s3) message None)\<rparr>
           in Inr s4))"

section \<open>Comment routes (app/routes/comments.py)\<close>

text \<open>
  \<^verbatim>\<open>render_markdown\<close> calls the markdown and bleach libraries; it is the parameter
  \<open>render\<close>. The module imports the connection manager and nothing of \<^verbatim>\<open>app.cache\<close>.
\<close>

definition find_comment :: "uuid \<Rightarrow> uuid \<Rightarrow> Comment list \<Rightarrow> Comment option" where
  "find_comment ci ti cs =
     find (\<lambda>c. c_id c = ci \<and> c_task_id c = ti \<and> c_is_deleted c = False) cs"

definition write_comment :: "Comment \<Rightarrow> Comment list \<Rightarrow> Comment list" where
  "write_comment c' cs = map (\<lambda>c. if c_id c = c_id c' then c' else c) cs"

definition add_comment ::
    "(WebSocket \<Rightarrow> bool) \<Rightarrow> (string \<Rightarrow> string) \<Rightarrow> uuid \<Rightarrow> User \<Rightarrow> uuid \<Rightarrow> string
      \<Rightarrow> app_state \<Rightarrow> error + (app_state \<times> Comment)" where
  "add_comment send_ok render new_id current_user ti content s =
     (case find_task ti (db_tasks s) of
        None \<Rightarrow> Inl (HTTPException 404)
      | Some task \<Rightarrow>
          (let comment = \<lparr>c_id = new_id, c_content = content,
                          c_content_html = Some (render content),
                          c_task_id = ti, c_user_id = u_id current_user,
                          c_is_deleted = False\<rparr>;
               s1 = s\<lparr>db_comments := db_comments s @ [comment]\<rparr>;
               message = \<lparr>m_type = ''comment_added'',
                          m_data = [(''task_id'', JId ti),
                                    (''comment_id'', JId (c_id comment)),
                                    (''author'', JStr (full_name current_user))]\<rparr>;
               s2 = s1\<lparr>deliveries := deliveries s1
                          @ snd (broadcast send_ok (active_connections s1) message None)\<rparr>
           in Inr (s2, comment)))"

definition update_comment ::
    "(string \<Rightarrow> string) \<Rightarrow> User \<Rightarrow> uuid \<Rightarrow> uuid \<Rightarrow> string
      \<Rightarrow> app_state \<Rightarrow> error + (app_state \<times> Comment)" where
  "update_comment render current_user ti ci content s =
     (case find_comment ci ti (db_comments s) of
        None \<Rightarrow> Inl (HTTPException 404)
      | Some comment \<Rightarrow>
          if c_user_id comment \<noteq> u_id current_user then Inl (HTTPException 403)
          else (let comment' = comment\<lparr>c_content := content,
                                        c_content_html := Some (render content)\<rparr>;
                    s1 = s\<lparr>db_comments := write_comment comment' (db_comments s)\<rparr>
                in Inr (s1, comment')))"

definition delete_comment ::
    "User \<Rightarrow> uuid \<Rightarrow> uuid \<Rightarrow> app_state \<Rightarrow> error + app_state" where
  "delete_comment current_user ti ci s =
     (case find_comment ci ti (db_comments s) of
        None \<Rightarrow> Inl (HTTPException 404)
      | Some comment \<Rightarrow>
          if c_user_id comment \<noteq> u_id current_user then Inl (HTTPException 403)
          else (let comment' = comment\<lparr>c_is_deleted := True\<rparr>
                in Inr (s\<lparr>db_comments := write_comment comment' (db_comments s)\<rparr>)))"


section \<open>Observations used in the statements\<close>

text \<open>
  The task table after a run of the sweep, and after the startup pass: the table the
  run committed, or the table before it when the run raised and committed nothing.
\<close>

definition sweep_table :: "(uuid \<rightharpoonup> User) \<Rightarrow> instant \<Rightarrow> Task list \<Rightarrow> Task list" where
  "sweep_table users now db =
     (case process_task_overdue_check users now db of Inl e \<Rightarrow> db | Inr s \<Rightarrow> sw_tasks s)"

definition lifespan_table :: "(uuid \<rightharpoonup> User) \<Rightarrow> instant \<Rightarrow> Task list \<Rightarrow> Task list" where
  "lifespan_table users now db =
     (case lifespan_transitions users now db of None \<Rightarrow> db | Some s \<Rightarrow> ls_tasks s)"

text \<open>
  The table after the status writes of a session that loaded the rows \<open>sel\<close>: every
  row with the primary key of a loaded row has status \<open>OVERDUE\<close>.
\<close>

definition mark_selected :: "Task list \<Rightarrow> Task list \<Rightarrow> Task list" where
  "mark_selected sel tb =
     map (\<lambda>t. if task_id t \<in> task_id ` set sel then t\<lparr>status := OVERDUE\<rparr> else t) tb"

text \<open>The sessions a registry holds for user \<open>u\<close>: none when \<open>u\<close> has no entry.\<close>

definition sessions_of :: "registry \<Rightarrow> string \<Rightarrow> WebSocket list" where
  "sessions_of reg u = (case map_of reg u of None \<Rightarrow> [] | Some conns \<Rightarrow> conns)"

text \<open>
  Whether a notification's title is accepted by its column, and the row that is stored
  when it is.
\<close>

definition title_fits :: "Notification \<Rightarrow> bool" where
  "title_fits n = list_all (\<lambda>c. c = CHR '' '') (drop 255 (n_title n))"

definition stored_row :: "Notification \<Rightarrow> Notification" where
  "stored_row n = n\<lparr>n_title := take 255 (n_title n)\<rparr>"

text \<open>
  The number of rows whose status was not \<open>OVERDUE\<close> before a run and is \<open>OVERDUE\<close>
  after it, the table being compared row by row.
\<close>

definition overdue_transitions :: "Task list \<Rightarrow> Task list \<Rightarrow> nat" where
  "overdue_transitions before after =
     length (filter (\<lambda>(a, b). status a \<noteq> OVERDUE \<and> status b = OVERDUE) (zip before after))"

text \<open>The notifications among \<open>ns\<close> that refer to task \<open>i\<close>, of whatever type.\<close>

definition notifications_for :: "uuid \<Rightarrow> Notification list \<Rightarrow> Notification list" where
  "notifications_for i ns = filter (\<lambda>n. n_task_id n = Some i) ns"

text \<open>The deliveries among \<open>ds\<close> that were made in the bucket of user \<open>u\<close>.\<close>

definition deliveries_for :: "string \<Rightarrow> delivery list \<Rightarrow> delivery list" where
  "deliveries_for u ds = filter (\<lambda>d. fst d = u) ds"

text \<open>
  What the two purges of the task handlers leave of a cache: every key that starts with
  \<^verbatim>\<open>tasks:\<close> or \<^verbatim>\<open>analytics:\<close> is gone, every other key is as before.
\<close>

definition purged :: "cache_store \<Rightarrow> string \<Rightarrow> string option" where
  "purged c key =
     (if prefix ''tasks:'' key \<or> prefix ''analytics:'' key then None else c key)"

section \<open>Concrete inputs\<close>

text \<open>
  A small database at time 10: a task due at 5 with notification and assignee, one due
  at 5 without notification, a completed one, a deleted one, and a task that started at
  3 and is due at 100.
\<close>

definition ex_alice :: User where
  "ex_alice = \<lparr>u_id = 1, email = ''alice@example.org'', full_name = ''Alice''\<rparr>"

definition ex_users :: "uuid \<rightharpoonup> User" where
  "ex_users = map_of [(1, ex_alice)]"

definition ex_row :: "uuid \<Rightarrow> TaskStatus \<Rightarrow> instant option \<Rightarrow> instant option \<Rightarrow> bool \<Rightarrow> Task" where
  "ex_row i st start due notify =
     \<lparr>task_id = i, title = ''report'', status = st, priority = MEDIUM,
      start_date = start, due_date = due, notify_overdue = notify, is_deleted = False,
      created_by = 2, assigned_to = None\<rparr>"

definition ex_due :: Task where
  "ex_due = (ex_row 10 TODO None (Some 5) True)\<lparr>assigned_to := Some 1\<rparr>"

definition ex_quiet :: Task where
  "ex_quiet = ex_row 11 IN_PROGRESS None (Some 5) False"

definition ex_done :: Task where
  "ex_done = ex_row 12 COMPLETED None (Some 5) True"

definition ex_gone :: Task where
  "ex_gone = (ex_row 13 TODO None (Some 5) True)\<lparr>is_deleted := True\<rparr>"

definition ex_started :: Task where
  "ex_started = ex_row 14 TODO (Some 3) (Some 100) True"

definition ex_db :: "Task list" where
  "ex_db = [ex_due, ex_quiet, ex_done, ex_gone, ex_started]"


text \<open>
  A creation request at time 10 for a task with status \<^verbatim>\<open>todo\<close> that starts at 50 and
  is due at 100, and the same request without a start date.
\<close>

definition ex_create :: TaskCreate where
  "ex_create =
     \<lparr>tc_title = ''report'', tc_status = Some ''todo'', tc_priority = Some ''medium'',
      tc_start_date = Some (Aware 50), tc_due_date = Some (Aware 100),
      tc_assigned_to = None, tc_notify_overdue = Some False\<rparr>"

definition ex_created :: Task where
  "ex_created = (ex_row 20 IN_PROGRESS None (Some 100) False)\<lparr>created_by := 1\<rparr>"

text \<open>
  Two users with live sessions: alice holds sessions 1 and 2, bob session 3. A send to
  session 1 raises, every other send succeeds.
\<close>

definition ex_registry :: registry where
  "ex_registry = [(''alice'', [1, 2]), (''bob'', [3])]"

definition ex_send_ok :: "WebSocket \<Rightarrow> bool" where
  "ex_send_ok ws = (ws \<noteq> 1)"

definition ex_message :: ws_message where
  "ex_message = \<lparr>m_type = ''task_updated'', m_data = [(''task_id'', JId 10)]\<rparr>"

text \<open>
  An application state over the concrete database, with one cached task listing, one
  cached overview and one unrelated key.
\<close>

definition ex_cache :: cache_store where
  "ex_cache = map_of [(''tasks:1:1:10'', ''page''), (''analytics:overview:1'', ''counts''),
                      (''session:1'', ''token'')]"

definition ex_comment :: Comment where
  "ex_comment =
     \<lparr>c_id = 30, c_content = ''hello'', c_content_html = Some ''hello'',
      c_task_id = 10, c_user_id = 1, c_is_deleted = False\<rparr>"

definition ex_state :: app_state where
  "ex_state =
     \<lparr>db_tasks = ex_db, db_comments = [ex_comment], cache = ex_cache,
      active_connections = ex_registry, deliveries = []\<rparr>"

definition ex_update :: TaskUpdate where
  "ex_update =
     \<lparr>tu_title = Some ''report v2'', tu_status = Some ''completed'', tu_priority = None,
      tu_start_date = None, tu_due_date = None, tu_assigned_to = None,
      tu_notify_overdue = None\<rparr>"

text \<open>
  The states the handlers leave when run on \<open>ex_state\<close>: what the two purges leave of
  the cache, and the deliveries of one broadcast (session 1 is skipped).
\<close>

definition ex_purged_cache :: cache_store where
  "ex_purged_cache =
     cache_delete_pattern (cache_delete_pattern ex_cache ''tasks:*'') ''analytics:*''"

definition ex_sent :: "ws_message \<Rightarrow> delivery list" where
  "ex_sent m = [(''alice'', 2, m), (''bob'', 3, m)]"

definition ex_state_created :: app_state where
  "ex_state_created =
     ex_state\<lparr>db_tasks := ex_db @ [ex_created],
              cache := ex_purged_cache,
              deliveries := ex_sent \<lparr>m_type = ''task_created'',
                 m_data = [(''task_id'', JId 20), (''title'', JStr ''report'')]\<rparr>\<rparr>"

definition ex_state_bulk :: app_state where
  "ex_state_bulk = ex_state\<lparr>db_tasks := ex_db @ [ex_created], cache := ex_purged_cache\<rparr>"

definition ex_updated :: Task where
  "ex_updated = ex_due\<lparr>title := ''report v2'', status := COMPLETED\<rparr>"

definition ex_state_updated :: app_state where
  "ex_state_updated =
     ex_state\<lparr>db_tasks := [ex_updated, ex_quiet, ex_done, ex_gone, ex_started],
              cache := ex_purged_cache,
              deliveries := ex_sent \<lparr>m_type = ''task_updated'',
                 m_data = [(''task_id'', JId 10), (''title'', JStr ''report v2'')]\<rparr>\<rparr>"

definition ex_state_deleted :: app_state where
  "ex_state_deleted =
     ex_state\<lparr>db_tasks := [ex_due\<lparr>is_deleted := True\<rparr>, ex_quiet, ex_done, ex_gone,
                           ex_started],
              cache := ex_purged_cache,
              deliveries := ex_sent \<lparr>m_type = ''task_deleted'',
                 m_data = [(''task_id'', JId 10)]\<rparr>\<rparr>"

definition ex_new_comment :: Comment where
  "ex_new_comment =
     \<lparr>c_id = 31, c_content = ''done?'', c_content_html = Some ''done?'',
      c_task_id = 10, c_user_id = 1, c_is_deleted = False\<rparr>"

definition ex_state_commented :: app_state where
  "ex_state_commented =
     ex_state\<lparr>db_comments := [ex_comment, ex_new_comment],
              deliveries := ex_sent \<lparr>m_type = ''comment_added'',
                 m_data = [(''task_id'', JId 10), (''comment_id'', JId 31),
                           (''author'', JStr ''Alice'')]\<rparr>\<rparr>"

definition ex_edited_comment :: Comment where
  "ex_edited_comment = ex_comment\<lparr>c_content := ''bye'', c_content_html := Some ''bye''\<rparr>"

definition ex_state_comment_edited :: app_state where
  "ex_state_comment_edited = ex_state\<lparr>db_comments := [ex_edited_comment]\<rparr>"

definition ex_state_comment_deleted :: app_state where
  "ex_state_comment_deleted =
     ex_state\<lparr>db_comments := [ex_comment\<lparr>c_is_deleted := True\<rparr>]\<rparr>"

text \<open>
  What the sweep returns on the concrete database at time 10: the notification for
  \<open>ex_due\<close> and the e-mail to its assignee alice.
\<close>

definition ex_due_notification :: Notification where
  "ex_due_notification =
     \<lparr>n_user_id = 1, n_task_id = Some 10, n_type = TASK_OVERDUE,
      n_title = ''Task Overdue: report'',
      n_message = ''Task '' @ [CHR 39] @ ''report'' @ [CHR 39]
                  @ '' is past its due date. Please take action.'',
      n_is_read = False\<rparr>"

definition ex_due_email :: Email where
  "ex_due_email =
     \<lparr>to_email = ''alice@example.org'', subject = ''Overdue: report'',
      body = ''<p>Task <strong>report</strong> is overdue. Please update its status.</p>''\<rparr>"

definition ex_swept :: sweep_state where
  "ex_swept =
     \<lparr>sw_tasks = [ex_due\<lparr>status := OVERDUE\<rparr>, ex_quiet\<lparr>status := OVERDUE\<rparr>, ex_done,
                 ex_gone, ex_started],
      sw_added = [ex_due_notification], sw_queued = [ex_due_email],
      marked = 2, notified = 1\<rparr>"

definition ex_started_up :: lifespan_state where
  "ex_started_up =
     \<lparr>ls_tasks = [ex_due\<lparr>status := OVERDUE\<rparr>, ex_quiet\<lparr>status := OVERDUE\<rparr>, ex_done,
                 ex_gone, ex_started\<lparr>status := IN_PROGRESS\<rparr>],
      ls_added = [ex_due_notification], ls_sent = [ex_due_email]\<rparr>"

text \<open>
  A due task flagged for notification whose title has 242 characters: its notification
  title has 256.
\<close>

definition ex_long :: Task where
  "ex_long = (ex_row 15 TODO None (Some 5) True)\<lparr>title := replicate 242 (CHR ''x'')\<rparr>"

section \<open>The sweep: what it computes\<close>

lemma varchar_eq:
  "varchar n v =
     (if list_all (\<lambda>c. c = CHR '' '') (drop n v) then Inr (take n v) else Inl DataError)"
  by (simp add: varchar_def)

lemma insert_notification_eq:
  "insert_notification n = (if title_fits n then Inr (stored_row n) else Inl DataError)"
  by (simp add: insert_notification_def varchar_eq title_fits_def stored_row_def)

lemma flush_notifications_eq:
  "flush_notifications ns =
     (if list_all title_fits ns then Inr (map stored_row ns) else Inl DataError)"
  by (induction ns) (simp_all add: insert_notification_eq)

lemma sweep_loop_eq:
  "sweep_loop users sel
     \<lparr>sw_tasks = tb, sw_added = a, sw_queued = q, marked = m, notified = k\<rparr> =
     \<lparr>sw_tasks = mark_selected sel tb,
      sw_added = a @ map overdue_notification (filter notify_overdue sel),
      sw_queued = q @ concat (map (sweep_emails users) (filter notify_overdue sel)),
      marked = m + int (length sel),
      notified = k + int (length (filter notify_overdue sel))\<rparr>"
proof (induction sel arbitrary: tb a q m k)
  case Nil
  then show ?case by (simp add: mark_selected_def map_idI)
next
  case (Cons t sel)
  show ?case
    by (simp add: Cons.IH sweep_step_def set_status_def mark_selected_def Let_def)
qed

text \<open>
  The loop and the commit, in closed form: the run raises exactly when a notification
  title is not accepted, and otherwise every field of its result is determined.
\<close>

lemma run_selected_eq:
  "run_selected users sel tb =
     (if list_all title_fits (map overdue_notification (filter notify_overdue sel))
      then Inr \<lparr>sw_tasks = mark_selected sel tb,
                sw_added = map stored_row (map overdue_notification (filter notify_overdue sel)),
                sw_queued = concat (map (sweep_emails users) (filter notify_overdue sel)),
                marked = int (length sel),
                notified = int (length (filter notify_overdue sel))\<rparr>
      else Inl DataError)"
  by (simp add: run_selected_def sweep_loop_eq flush_notifications_eq Let_def)

lemma run_selected_fields:
  assumes "run_selected users sel tb = Inr s"
  shows "sw_tasks s = mark_selected sel tb"
    and "sw_added s = map stored_row (map overdue_notification (filter notify_overdue sel))"
    and "sw_queued s = concat (map (sweep_emails users) (filter notify_overdue sel))"
    and "marked s = int (length sel)"
    and "notified s = int (length (filter notify_overdue sel))"
  using assms by (auto simp: run_selected_eq split: if_splits)




text \<open>With a primary key, a row's id is among the selected ids exactly when the row is selected.\<close>

lemma selected_id_iff:
  assumes "distinct (map task_id db)" and "t \<in> set db"
  shows "(task_id t \<in> task_id ` set (filter P db)) = P t"
  using assms by (auto simp: distinct_map inj_on_def)

lemma filter_same_key:
  assumes "distinct (map f xs)" and "t \<in> set xs"
  shows "filter (\<lambda>x. f x = f t) xs = [t]"
  using assms
proof (induction xs)
  case Nil
  then show ?case by simp
next
  case (Cons a xs)
  show ?case
  proof (cases "a = t")
    case True
    then have "f t \<notin> f ` set xs" using Cons.prems by simp
    then have "\<And>x. x \<in> set xs \<Longrightarrow> f x \<noteq> f t" by (metis imageI)
    then have "filter (\<lambda>x. f x = f t) xs = []" by (simp add: filter_empty_conv)
    with True show ?thesis by simp
  next
    case False
    then have "t \<in> set xs" using Cons.prems by simp
    moreover have "f a \<noteq> f t" using Cons.prems \<open>t \<in> set xs\<close> by auto
    ultimately show ?thesis using Cons by simp
  qed
qed

lemma filter_other_key:
  assumes "distinct (map f xs)" and "t \<in> set xs" and "\<not> P t"
  shows "filter (\<lambda>x. f x = f t) (filter P xs) = []"
proof -
  have "\<And>x. x \<in> set (filter P xs) \<Longrightarrow> f x \<noteq> f t"
  proof
    fix x assume x: "x \<in> set (filter P xs)" and e: "f x = f t"
    then have "x \<in> set xs" by simp
    with assms(1,2) e have "x = t" by (auto simp: distinct_map inj_on_def)
    with x assms(3) show False by simp
  qed
  then show ?thesis by (simp only: filter_empty_conv) blast
qed

lemma mark_selected_distinct:
  assumes "distinct (map task_id db)"
  shows "mark_selected (filter (overdue_where now) db) db =
           map (\<lambda>t. if overdue_where now t then t\<lparr>status := OVERDUE\<rparr> else t) db"
proof -
  have "\<And>t. t \<in> set db \<Longrightarrow>
          (task_id t \<in> task_id ` set (filter (overdue_where now) db)) = overdue_where now t"
    using assms by (rule selected_id_iff)
  then show ?thesis
    by (simp add: mark_selected_def cong: map_cong)
qed

lemma sweep_fields:
  assumes "process_task_overdue_check users now db = Inr s"
  shows "sw_tasks s = mark_selected (filter (overdue_where now) db) db"
    and "sw_added s = map stored_row (map overdue_notification
                        (filter notify_overdue (filter (overdue_where now) db)))"
    and "sw_queued s = concat (map (sweep_emails users)
                        (filter notify_overdue (filter (overdue_where now) db)))"
    and "marked s = int (length (filter (overdue_where now) db))"
    and "notified s = int (length (filter notify_overdue (filter (overdue_where now) db)))"
  using assms run_selected_fields[of users "filter (overdue_where now) db" db s]
  by (simp_all add: process_task_overdue_check_def)

lemma sweep_tasks_distinct:
  assumes "distinct (map task_id db)" and "process_task_overdue_check users now db = Inr s"
  shows "sw_tasks s = map (\<lambda>t. if overdue_where now t then t\<lparr>status := OVERDUE\<rparr> else t) db"
  using assms by (simp add: sweep_fields(1) mark_selected_distinct)

text \<open>After a committed run no row satisfies the selection any more, whatever the ids are.\<close>

lemma mark_selected_no_candidates:
  "filter (overdue_where now) (mark_selected (filter (overdue_where now) db) db) = []"
  by (auto simp: mark_selected_def filter_empty_conv overdue_where_def)

lemma sweep_row:
  assumes "i < length db"
  shows "sweep_table users now db ! i = db ! i
       \<or> sweep_table users now db ! i = (db ! i)\<lparr>status := OVERDUE\<rparr>"
proof (cases "process_task_overdue_check users now db")
  case (Inl e)
  then show ?thesis by (simp add: sweep_table_def)
next
  case (Inr s)
  then show ?thesis using assms
    by (simp add: sweep_table_def sweep_fields(1) mark_selected_def)
qed

text \<open>
  With a primary key, a run that commits marks exactly the selected rows: each becomes
  the same row with status \<open>OVERDUE\<close>, every other row is left as it was.
\<close>

lemma sweep_marks_when_committed:
  assumes "distinct (map task_id db)" and "i < length db"
    and "process_task_overdue_check users now db = Inr s"
  shows "length (sw_tasks s) = length db
       \<and> sw_tasks s ! i
           = (if is_deleted (db ! i) = False \<and> sql_lt (due_date (db ! i)) now
                 \<and> status (db ! i) \<noteq> COMPLETED \<and> status (db ! i) \<noteq> OVERDUE
              then (db ! i)\<lparr>status := OVERDUE\<rparr> else db ! i)"
  using assms by (auto simp: sweep_tasks_distinct overdue_where_def)

lemma overdue_transitions_mark:
  "overdue_transitions db
     (map (\<lambda>t. if overdue_where now t then t\<lparr>status := OVERDUE\<rparr> else t) db)
     = length (filter (overdue_where now) db)"
  by (induction db) (auto simp: overdue_transitions_def overdue_where_def)

lemma notifications_for_stored:
  "notifications_for i (map stored_row (map overdue_notification ts))
     = map stored_row (map overdue_notification (filter (\<lambda>t. task_id t = i) ts))"
  by (induction ts)
     (simp_all add: notifications_for_def overdue_notification_def stored_row_def)


subsection \<open>The concrete database\<close>

lemma ex_db_distinct: "distinct (map task_id ex_db)"
  by (simp add: ex_db_def ex_due_def ex_quiet_def ex_done_def ex_gone_def ex_started_def
        ex_row_def)

lemma ex_selected: "filter (overdue_where 10) ex_db = [ex_due, ex_quiet]"
  by (simp add: ex_db_def ex_due_def ex_quiet_def ex_done_def ex_gone_def ex_started_def
        ex_row_def overdue_where_def sql_lt_def)

lemma ex_sweep: "process_task_overdue_check ex_users 10 ex_db = Inr ex_swept"
  by (simp add: process_task_overdue_check_def ex_selected run_selected_eq)
     (simp add: ex_db_def ex_due_def ex_quiet_def ex_done_def ex_gone_def ex_started_def
        ex_row_def ex_swept_def ex_due_notification_def ex_due_email_def mark_selected_def
        overdue_notification_def notify_user_def title_fits_def stored_row_def
        sweep_emails_def overdue_email_def ex_users_def ex_alice_def)

lemma ex_sweep_table:
  "sweep_table ex_users 10 ex_db =
     [ex_due\<lparr>status := OVERDUE\<rparr>, ex_quiet\<lparr>status := OVERDUE\<rparr>, ex_done, ex_gone, ex_started]"
  by (simp add: sweep_table_def ex_sweep ex_swept_def)

lemma ex_sweep_long:
  "process_task_overdue_check ex_users 10 [ex_due, ex_long] = Inl DataError"
  by (simp add: process_task_overdue_check_def run_selected_eq overdue_where_def sql_lt_def
        overdue_notification_def title_fits_def ex_due_def ex_long_def ex_row_def)

lemma overdue_where_explicit:
  "overdue_where now =
     (\<lambda>r. is_deleted r = False \<and> (\<exists>d. due_date r = Some d \<and> d < now)
          \<and> status r \<noteq> COMPLETED \<and> status r \<noteq> OVERDUE)"
  by (rule ext) (auto simp: overdue_where_def sql_lt_def split: option.splits)

lemma concat_map_filter_if:
  "concat (map f (filter P xs)) = concat (map (\<lambda>x. if P x then f x else []) xs)"
  by (induction xs) simp_all


text \<open>
  The notification rows a committed run stores for a selected task, and the e-mail jobs
  it queues, written out field by field.
\<close>

lemma sweep_stored_for:
  assumes "distinct (map task_id db)" and "t \<in> set db" and "overdue_where now t"
    and "process_task_overdue_check users now db = Inr s"
  shows "notifications_for (task_id t) (sw_added s) =
           (if notify_overdue t
            then [\<lparr>n_user_id = (case assigned_to t of Some a \<Rightarrow> a | None \<Rightarrow> created_by t),
                   n_task_id = Some (task_id t),
                   n_type = TASK_OVERDUE,
                   n_title = take 255 (''Task Overdue: '' @ title t),
                   n_message = ''Task '' @ [CHR 39] @ title t @ [CHR 39]
                               @ '' is past its due date. Please take action.'',
                   n_is_read = False\<rparr>]
            else [])"
proof -
  let ?sel = "filter (overdue_where now) db"
  have d: "distinct (map task_id ?sel)"
    using assms(1) by (simp add: distinct_map_filter)
  have d': "distinct (map task_id (filter notify_overdue ?sel))"
    using d by (rule distinct_map_filter)
  have "filter (\<lambda>x. task_id x = task_id t) (filter notify_overdue ?sel)
          = (if notify_overdue t then [t] else [])"
  proof (cases "notify_overdue t")
    case True
    have "t \<in> set (filter notify_overdue ?sel)" using assms(2,3) True by simp
    from filter_same_key[OF d' this] show ?thesis using True by (simp only: if_True)
  next
    case False
    have "t \<in> set ?sel" using assms(2,3) by simp
    from filter_other_key[of task_id ?sel t notify_overdue, OF d this False]
    show ?thesis using False by (simp only: if_False)
  qed
  note key = this
  have a: "sw_added s = map stored_row (map overdue_notification
                          (filter notify_overdue ?sel))"
    by (rule sweep_fields(2)[OF assms(4)])
  have "notifications_for (task_id t) (sw_added s) =
          map stored_row (map overdue_notification
            (filter (\<lambda>x. task_id x = task_id t) (filter notify_overdue ?sel)))"
    unfolding a by (rule notifications_for_stored)
  also have "\<dots> = map stored_row (map overdue_notification
                       (if notify_overdue t then [t] else []))"
    by (simp only: key)
  finally show ?thesis
    by (simp add: overdue_notification_def notify_user_def stored_row_def)
qed

lemma sweep_queued_explicit:
  assumes "process_task_overdue_check users now db = Inr s"
  shows "sw_queued s =
           concat (map (\<lambda>r. if notify_overdue r
                        then (case assigned_to r of
                                None \<Rightarrow> []
                              | Some a \<Rightarrow>
                                  (case users a of
                                     None \<Rightarrow> []
                                   | Some u \<Rightarrow>
                                       [\<lparr>to_email = email u,
                                         subject = ''Overdue: '' @ title r,
                                         body = ''<p>Task <strong>'' @ title r
                                           @ ''</strong> is overdue. Please update its status.</p>''\<rparr>]))
                        else [])
                    (filter (overdue_where now) db))"
proof -
  have "sweep_emails users =
          (\<lambda>r. case assigned_to r of
                  None \<Rightarrow> []
                | Some a \<Rightarrow>
                    (case users a of
                       None \<Rightarrow> []
                     | Some u \<Rightarrow>
                         [\<lparr>to_email = email u,
                           subject = ''Overdue: '' @ title r,
                           body = ''<p>Task <strong>'' @ title r
                             @ ''</strong> is overdue. Please update its status.</p>''\<rparr>]))"
    by (rule ext) (simp add: sweep_emails_def overdue_email_def split: option.splits)
  note e = this
  have "sw_queued s = concat (map (sweep_emails users)
                        (filter notify_overdue (filter (overdue_where now) db)))"
    by (rule sweep_fields(3)[OF assms])
  also have "\<dots> = concat (map (\<lambda>r. if notify_overdue r then sweep_emails users r else [])
                        (filter (overdue_where now) db))"
    by (rule concat_map_filter_if)
  finally show ?thesis by (simp only: e)
qed

section \<open>Claims about the sweep\<close>

text \<open>
  Claim C1 says that after \<^verbatim>\<open>process_task_overdue_check\<close> every task that is not
  deleted, is due before \<open>now\<close> and is neither \<open>COMPLETED\<close> nor \<open>OVERDUE\<close> has status
  \<open>OVERDUE\<close>, and that completed, overdue and deleted tasks are not modified. The code
  misses this when a selected task is flagged for notification and has a title of more
  than 241 characters that do not end in spaces: the notification title exceeds its
  column, the INSERT raises, and the run ends without a commit. At time 10, on the table
  of \<open>ex_due\<close> and \<open>ex_long\<close>, both due at 5 and \<open>TODO\<close>, the run raises and both rows
  are still \<open>TODO\<close>; without \<open>ex_long\<close> the same run marks \<open>ex_due\<close>.
\<close>

theorem sweep_aborts_on_long_title:
  "is_deleted ex_due = False \<and> due_date ex_due = Some 5 \<and> status ex_due = TODO
   \<and> is_deleted ex_long = False \<and> due_date ex_long = Some 5 \<and> status ex_long = TODO
   \<and> notify_overdue ex_long \<and> length (title ex_long) = 242
   \<and> process_task_overdue_check ex_users 10 [ex_due, ex_long] = Inl DataError
   \<and> sweep_table ex_users 10 [ex_due, ex_long] = [ex_due, ex_long]
   \<and> sweep_table ex_users 10 [ex_due] = [ex_due\<lparr>status := OVERDUE\<rparr>]"
  by (simp add: sweep_table_def process_task_overdue_check_def run_selected_eq
        mark_selected_def overdue_where_def sql_lt_def overdue_notification_def
        title_fits_def ex_due_def ex_long_def ex_row_def)

text \<open>
  Claim C6. A second run of \<^verbatim>\<open>process_task_overdue_check\<close> with the same \<open>now\<close>, on the
  table the first run left, makes no further transition and stores no further
  notification: when the first run committed, the second selects no row and returns the
  table unchanged with no notification, no e-mail job and both counters 0; when the
  first run raised, it committed nothing and the second run raises in the same way.
\<close>

theorem sweep_idempotent:
  "process_task_overdue_check users now (sweep_table users now db) =
     (case process_task_overdue_check users now db of
        Inl e \<Rightarrow> Inl e
      | Inr s \<Rightarrow> Inr \<lparr>sw_tasks = sw_tasks s, sw_added = [], sw_queued = [],
                      marked = 0, notified = 0\<rparr>)"
proof (cases "process_task_overdue_check users now db")
  case (Inl e)
  then show ?thesis by (simp add: sweep_table_def)
next
  case (Inr s)
  have t: "sw_tasks s = mark_selected (filter (overdue_where now) db) db"
    using Inr by (rule sweep_fields(1))
  have "filter (overdue_where now) (sw_tasks s) = []"
    unfolding t by (rule mark_selected_no_candidates)
  then have "process_task_overdue_check users now (sw_tasks s) =
               Inr \<lparr>sw_tasks = sw_tasks s, sw_added = [], sw_queued = [],
                    marked = 0, notified = 0\<rparr>"
    by (simp add: process_task_overdue_check_def run_selected_eq mark_selected_def map_idI)
  with Inr show ?thesis by (simp add: sweep_table_def)
qed

text \<open>
  On the concrete database at time 10 the first run commits and the second returns the
  same table with nothing added. On the table of \<open>ex_due\<close> and \<open>ex_long\<close> the first
  run raises, the table stays as it was, and the second run raises again.
\<close>

theorem sweep_idempotent_witness:
  "process_task_overdue_check ex_users 10 ex_db = Inr ex_swept
   \<and> sweep_table ex_users 10 ex_db = sw_tasks ex_swept
   \<and> process_task_overdue_check ex_users 10 (sw_tasks ex_swept)
       = Inr \<lparr>sw_tasks = [ex_due\<lparr>status := OVERDUE\<rparr>, ex_quiet\<lparr>status := OVERDUE\<rparr>,
                          ex_done, ex_gone, ex_started],
              sw_added = [], sw_queued = [], marked = 0, notified = 0\<rparr>
   \<and> process_task_overdue_check ex_users 10 [ex_due, ex_long] = Inl DataError
   \<and> sweep_table ex_users 10 [ex_due, ex_long] = [ex_due, ex_long]
   \<and> process_task_overdue_check ex_users 10 (sweep_table ex_users 10 [ex_due, ex_long])
       = Inl DataError"
  using sweep_idempotent[of ex_users 10 ex_db]
        sweep_idempotent[of ex_users 10 "[ex_due, ex_long]"]
  by (simp add: sweep_table_def ex_sweep ex_sweep_long) (simp add: ex_swept_def)

text \<open>
  Claim C10. In the dictionary that \<^verbatim>\<open>process_task_overdue_check\<close> returns,
  \<^verbatim>\<open>notifications_sent\<close> is at most \<^verbatim>\<open>marked_overdue\<close>; \<^verbatim>\<open>marked_overdue\<close> is the number
  of rows whose status the run changed to \<open>OVERDUE\<close>, which is the number of selected
  rows; and \<^verbatim>\<open>notifications_sent\<close> is the number of notifications the run stored. A
  run that raises returns no dictionary.
\<close>

theorem sweep_counters:
  assumes "distinct (map task_id db)"
    and "process_task_overdue_check users now db = Inr s"
  shows "notifications_sent (sweep_return s) \<le> marked_overdue (sweep_return s)
       \<and> marked_overdue (sweep_return s) = int (overdue_transitions db (sw_tasks s))
       \<and> marked_overdue (sweep_return s) = int (length (filter (overdue_where now) db))
       \<and> notifications_sent (sweep_return s) = int (length (sw_added s))"
proof -
  have "notified s \<le> marked s"
    unfolding sweep_fields(4,5)[OF assms(2)]
    by (simp only: of_nat_le_iff length_filter_le)
  moreover have "marked s = int (overdue_transitions db (sw_tasks s))"
    using assms
    by (simp add: sweep_fields(4) sweep_tasks_distinct overdue_transitions_mark)
  moreover have "notified s = int (length (sw_added s))"
    using assms(2) by (simp add: sweep_fields(2,5))
  ultimately show ?thesis
    using assms(2) by (simp add: sweep_return_def sweep_fields(4))
qed

theorem sweep_counters_witness:
  "distinct (map task_id ex_db)
   \<and> process_task_overdue_check ex_users 10 ex_db = Inr ex_swept
   \<and> marked_overdue (sweep_return ex_swept) = 2
   \<and> notifications_sent (sweep_return ex_swept) = 1
   \<and> overdue_transitions ex_db (sw_tasks ex_swept) = 2
   \<and> length (sw_added ex_swept) = 1"
  using sweep_counters[of ex_db ex_users 10 ex_swept] ex_db_distinct ex_sweep
  by (simp add: ex_selected) (simp add: ex_swept_def sweep_return_def)

text \<open>
  Against claim C2 as stated: the task \<open>ex_quiet\<close> is due and not flagged
  \<^verbatim>\<open>notify_overdue\<close>. The sweep commits, sets it to \<open>OVERDUE\<close>, counts it as marked and
  stores no notification.
\<close>

theorem sweep_unflagged_task_counterexample:
  "is_deleted ex_quiet = False \<and> due_date ex_quiet = Some 5 \<and> status ex_quiet = IN_PROGRESS
   \<and> notify_overdue ex_quiet = False
   \<and> process_task_overdue_check ex_users 10 [ex_quiet]
       = Inr \<lparr>sw_tasks = [ex_quiet\<lparr>status := OVERDUE\<rparr>], sw_added = [], sw_queued = [],
              marked = 1, notified = 0\<rparr>"
  by (simp add: process_task_overdue_check_def run_selected_eq mark_selected_def
        ex_quiet_def ex_row_def overdue_where_def sql_lt_def)

text \<open>
  Claim C2, amended. For a task \<open>t\<close> that a committed run of the sweep moves to
  \<open>OVERDUE\<close> (not deleted, due before \<open>now\<close>, neither \<open>COMPLETED\<close> nor \<open>OVERDUE\<close>), in a
  table with a primary key: the run stores exactly one notification for \<open>t\<close> when
  \<^verbatim>\<open>notify_overdue\<close> is set and none when it is not. The notification has type
  \<open>TASK_OVERDUE\<close>, goes to the assignee, or to the creator when there is no assignee,
  and carries the title and message built from the task title (the title as its
  255-character column stores it). The e-mail jobs the run queues are, in the order of
  the selected rows, one job per flagged row that has an assignee whom the user table
  holds, addressed to that assignee's e-mail address; a flagged row without such an
  assignee, and every row that is not flagged, gets none.
\<close>

theorem sweep_notification_when_flagged:
  assumes "distinct (map task_id db)" and "t \<in> set db"
    and "is_deleted t = False" and "due_date t = Some d" and "d < now"
    and "status t \<noteq> COMPLETED" and "status t \<noteq> OVERDUE"
    and "process_task_overdue_check users now db = Inr s"
  shows "notifications_for (task_id t) (sw_added s) =
           (if notify_overdue t
            then [\<lparr>n_user_id = (case assigned_to t of Some a \<Rightarrow> a | None \<Rightarrow> created_by t),
                   n_task_id = Some (task_id t),
                   n_type = TASK_OVERDUE,
                   n_title = take 255 (''Task Overdue: '' @ title t),
                   n_message = ''Task '' @ [CHR 39] @ title t @ [CHR 39]
                               @ '' is past its due date. Please take action.'',
                   n_is_read = False\<rparr>]
            else [])
       \<and> sw_queued s =
           concat (map (\<lambda>r. if notify_overdue r
                        then (case assigned_to r of
                                None \<Rightarrow> []
                              | Some a \<Rightarrow>
                                  (case users a of
                                     None \<Rightarrow> []
                                   | Some u \<Rightarrow>
                                       [\<lparr>to_email = email u,
                                         subject = ''Overdue: '' @ title r,
                                         body = ''<p>Task <strong>'' @ title r
                                           @ ''</strong> is overdue. Please update its status.</p>''\<rparr>]))
                        else [])
                    (filter (\<lambda>r. is_deleted r = False \<and> (\<exists>d. due_date r = Some d \<and> d < now)
                                 \<and> status r \<noteq> COMPLETED \<and> status r \<noteq> OVERDUE) db))"
proof -
  have w: "overdue_where now t"
    using assms(3-7) by (simp add: overdue_where_def sql_lt_def)
  show ?thesis
    using sweep_stored_for[OF assms(1,2) w assms(8)] sweep_queued_explicit[OF assms(8)]
    by (simp only: overdue_where_explicit[symmetric])
qed

text \<open>
  On the concrete database at time 10 the run commits. \<open>ex_due\<close> is flagged and assigned
  to alice (user 1): one notification for it, to user 1, and one e-mail to alice's
  address. \<open>ex_quiet\<close> is marked too and gets neither.
\<close>

theorem sweep_notification_when_flagged_witness:
  "distinct (map task_id ex_db) \<and> ex_due \<in> set ex_db \<and> ex_quiet \<in> set ex_db
   \<and> is_deleted ex_due = False \<and> due_date ex_due = Some 5
   \<and> status ex_due = TODO \<and> notify_overdue ex_due \<and> assigned_to ex_due = Some 1
   \<and> process_task_overdue_check ex_users 10 ex_db = Inr ex_swept
   \<and> notifications_for 10 (sw_added ex_swept)
       = [\<lparr>n_user_id = 1, n_task_id = Some 10, n_type = TASK_OVERDUE,
           n_title = ''Task Overdue: report'',
           n_message = ''Task '' @ [CHR 39] @ ''report'' @ [CHR 39]
                       @ '' is past its due date. Please take action.'',
           n_is_read = False\<rparr>]
   \<and> notifications_for 11 (sw_added ex_swept) = []
   \<and> sw_queued ex_swept
       = [\<lparr>to_email = ''alice@example.org'', subject = ''Overdue: report'',
           body = ''<p>Task <strong>report</strong> is overdue. Please update its status.</p>''\<rparr>]"
proof -
  have m: "ex_due \<in> set ex_db" "ex_quiet \<in> set ex_db" by (simp_all add: ex_db_def)
  have f: "is_deleted ex_due = False" "due_date ex_due = Some 5" "(5::int) < 10"
      "status ex_due \<noteq> COMPLETED" "status ex_due \<noteq> OVERDUE" "status ex_due = TODO"
      "notify_overdue ex_due" "assigned_to ex_due = Some 1" "task_id ex_due = 10"
      "title ex_due = ''report''" "created_by ex_due = 2"
    by (simp_all add: ex_due_def ex_row_def)
  have g: "is_deleted ex_quiet = False" "due_date ex_quiet = Some 5"
      "status ex_quiet \<noteq> COMPLETED" "status ex_quiet \<noteq> OVERDUE"
      "\<not> notify_overdue ex_quiet" "task_id ex_quiet = 11"
    by (simp_all add: ex_quiet_def ex_row_def)
  from sweep_notification_when_flagged[OF ex_db_distinct m(1) f(1,2,3,4,5) ex_sweep]
  have a: "notifications_for 10 (sw_added ex_swept)
       = [\<lparr>n_user_id = 1, n_task_id = Some 10, n_type = TASK_OVERDUE,
           n_title = ''Task Overdue: report'',
           n_message = ''Task '' @ [CHR 39] @ ''report'' @ [CHR 39]
                       @ '' is past its due date. Please take action.'',
           n_is_read = False\<rparr>]"
    by (simp add: f)
  from sweep_notification_when_flagged[OF ex_db_distinct m(2) g(1,2) f(3) g(3,4) ex_sweep]
  have b: "notifications_for 11 (sw_added ex_swept) = []"
    by (simp add: g)
  have c: "sw_queued ex_swept
       = [\<lparr>to_email = ''alice@example.org'', subject = ''Overdue: report'',
           body = ''<p>Task <strong>report</strong> is overdue. Please update its status.</p>''\<rparr>]"
    by (simp add: ex_swept_def ex_due_email_def)
  from a b c m f ex_db_distinct ex_sweep show ?thesis by simp
qed




section \<open>The startup pass and the overview: what they compute\<close>

lemma lifespan_loop_eq:
  "lifespan_loop users sel \<lparr>ls_tasks = tb, ls_added = a, ls_sent = q\<rparr> =
     \<lparr>ls_tasks = mark_selected sel tb,
      ls_added = a @ map overdue_notification (filter notify_overdue sel),
      ls_sent = q @ concat (map (lifespan_emails users) (filter notify_overdue sel))\<rparr>"
proof (induction sel arbitrary: tb a q)
  case Nil
  then show ?case by (simp add: mark_selected_def map_idI)
next
  case (Cons t sel)
  show ?case
    by (simp add: Cons.IH lifespan_step_def set_status_def mark_selected_def Let_def)
qed

lemma lifespan_transitions_eq:
  "lifespan_transitions users now db =
     (if list_all title_fits
           (map overdue_notification (filter notify_overdue (filter (overdue_where now) db)))
      then Some \<lparr>ls_tasks = start_update now
                              (mark_selected (filter (overdue_where now) db) db),
                 ls_added = map stored_row (map overdue_notification
                              (filter notify_overdue (filter (overdue_where now) db))),
                 ls_sent = concat (map (lifespan_emails users)
                              (filter notify_overdue (filter (overdue_where now) db)))\<rparr>
      else None)"
  by (simp add: lifespan_transitions_def lifespan_loop_eq flush_notifications_eq Let_def)

lemma lifespan_fields:
  assumes "lifespan_transitions users now db = Some s"
  shows "ls_tasks s = start_update now (mark_selected (filter (overdue_where now) db) db)"
    and "ls_added s = map stored_row (map overdue_notification
                        (filter notify_overdue (filter (overdue_where now) db)))"
    and "ls_sent s = concat (map (lifespan_emails users)
                        (filter notify_overdue (filter (overdue_where now) db)))"
  using assms by (auto simp: lifespan_transitions_eq split: if_splits)

text \<open>
  With a primary key the startup pass, when it commits, and the overview leave the same
  table: the two bulk updates, one after the other.
\<close>

lemma lifespan_tasks_distinct:
  assumes "distinct (map task_id db)" and "lifespan_transitions users now db = Some s"
  shows "ls_tasks s = overview_transitions now db"
  using assms
  by (simp add: lifespan_fields(1) mark_selected_distinct overview_transitions_def
        overdue_update_def)

lemma overview_transitions_nth:
  assumes "i < length db"
  shows "overview_transitions now db ! i =
     (if overdue_where now (db ! i) then (db ! i)\<lparr>status := OVERDUE\<rparr>
      else if start_where now (db ! i) then (db ! i)\<lparr>status := IN_PROGRESS\<rparr>
      else db ! i)"
  using assms
  by (simp add: overview_transitions_def start_update_def overdue_update_def start_where_def)

lemma lifespan_row:
  assumes "i < length db" and "status (db ! i) = TODO"
    and "status (lifespan_table users now db ! i) = IN_PROGRESS"
  shows "sql_le (start_date (db ! i)) now"
proof (cases "lifespan_transitions users now db")
  case None
  then show ?thesis using assms by (simp add: lifespan_table_def)
next
  case (Some s)
  then show ?thesis using assms
    by (simp add: lifespan_table_def lifespan_fields(1) mark_selected_def start_update_def
          start_where_def split: if_splits)
qed

lemma overview_row:
  assumes "i < length db" and "status (db ! i) = TODO"
    and "status (overview_transitions now db ! i) = IN_PROGRESS"
  shows "sql_le (start_date (db ! i)) now"
  using assms
  by (simp add: overview_transitions_nth start_where_def split: if_splits)

text \<open>The startup pass, run again with the same \<open>now\<close>, changes and adds nothing.\<close>

lemma lifespan_no_candidates_after:
  "filter (overdue_where now)
     (start_update now (mark_selected (filter (overdue_where now) db) db)) = []"
proof -
  let ?ids = "task_id ` set (filter (overdue_where now) db)"
  let ?mark = "\<lambda>t. if task_id t \<in> ?ids then t\<lparr>status := OVERDUE\<rparr> else t"
  let ?start = "\<lambda>t. if start_where now t then t\<lparr>status := IN_PROGRESS\<rparr> else t"
  have "\<not> overdue_where now (?start (?mark t))" if "t \<in> set db" for t
  proof (cases "task_id t \<in> ?ids")
    case True
    then show ?thesis by (simp add: start_where_def overdue_where_def)
  next
    case False
    with that have "\<not> overdue_where now t" by auto
    with False show ?thesis by (auto simp: start_where_def overdue_where_def)
  qed
  note settled = this
  have eq: "start_update now (mark_selected (filter (overdue_where now) db) db)
              = map (\<lambda>t. ?start (?mark t)) db"
    by (simp add: mark_selected_def start_update_def)
  show ?thesis
    unfolding eq filter_empty_conv
  proof
    fix x assume "x \<in> set (map (\<lambda>t. ?start (?mark t)) db)"
    then have "x \<in> (\<lambda>t. ?start (?mark t)) ` set db" by (simp only: set_map)
    then obtain t where "t \<in> set db" and "x = ?start (?mark t)" by blast
    with settled show "\<not> overdue_where now x" by blast
  qed
qed

lemma start_update_settled:
  assumes "\<And>t. t \<in> set ts \<Longrightarrow> \<not> start_where now t"
  shows "start_update now ts = ts"
  using assms by (simp add: start_update_def map_idI)

lemma start_update_idem: "start_update now (start_update now ts) = start_update now ts"
  by (rule start_update_settled) (auto simp: start_update_def start_where_def)

lemma lifespan_idempotent:
  assumes "lifespan_transitions users now db = Some s"
  shows "lifespan_transitions users now (ls_tasks s) =
           Some \<lparr>ls_tasks = ls_tasks s, ls_added = [], ls_sent = []\<rparr>"
proof -
  have t: "ls_tasks s = start_update now (mark_selected (filter (overdue_where now) db) db)"
    using assms by (rule lifespan_fields(1))
  have n: "filter (overdue_where now) (ls_tasks s) = []"
    unfolding t by (rule lifespan_no_candidates_after)
  have "start_update now (ls_tasks s) = ls_tasks s"
    unfolding t by (rule start_update_idem)
  then show ?thesis
    by (simp add: lifespan_transitions_eq n mark_selected_def map_idI)
qed

lemma ex_lifespan: "lifespan_transitions ex_users 10 ex_db = Some ex_started_up"
  by (simp add: lifespan_transitions_eq ex_selected)
     (simp add: ex_db_def ex_due_def ex_quiet_def ex_done_def ex_gone_def ex_started_def
        ex_row_def ex_started_up_def ex_due_notification_def ex_due_email_def
        mark_selected_def start_update_def start_where_def sql_le_def
        overdue_notification_def notify_user_def title_fits_def stored_row_def
        lifespan_emails_def overdue_email_def ex_users_def ex_alice_def)

text \<open>
  The startup pass has the sweep's defect: with the flagged due task \<open>ex_long\<close> in the
  table the block is abandoned, and the started task stays \<open>TODO\<close>.
\<close>

lemma startup_aborts_on_long_title:
  "lifespan_transitions ex_users 10 [ex_started, ex_long] = None
   \<and> lifespan_table ex_users 10 [ex_started, ex_long] = [ex_started, ex_long]"
  by (simp add: lifespan_table_def lifespan_transitions_eq overdue_where_def sql_lt_def
        overdue_notification_def title_fits_def ex_started_def ex_long_def ex_row_def)

section \<open>Claims about the start-date transition\<close>




section \<open>Registry and broadcast: what they compute\<close>

lemma send_each_map:
  "send_each send_ok u m conns = map (\<lambda>ws. (u, ws, m)) (filter send_ok conns)"
  by (induction conns) simp_all

lemma broadcast_loop_concat:
  "broadcast_loop send_ok m excl reg =
     concat (map (\<lambda>(u, conns). if Some u = excl then []
                                else map (\<lambda>ws. (u, ws, m)) (filter send_ok conns)) reg)"
  by (induction reg) (auto simp: send_each_map)

lemma broadcast_loop_mem:
  "((u, ws, m') \<in> set (broadcast_loop send_ok m excl reg)) =
     (m' = m \<and> Some u \<noteq> excl \<and> send_ok ws
      \<and> (\<exists>conns. (u, conns) \<in> set reg \<and> ws \<in> set conns))"
proof (induction reg)
  case Nil
  then show ?case by simp
next
  case (Cons a reg)
  obtain u' conns' where a: "a = (u', conns')" by (cases a)
  show ?case
    unfolding a broadcast_loop.simps
    by (cases "Some u' = excl") (auto simp: Cons.IH send_each_map)
qed

lemma broadcast_loop_no_bucket:
  assumes "u \<notin> fst ` set reg"
  shows "deliveries_for u (broadcast_loop send_ok m excl reg) = []"
proof -
  have "\<And>d. d \<in> set (broadcast_loop send_ok m excl reg) \<Longrightarrow> fst d \<noteq> u"
  proof
    fix d assume d: "d \<in> set (broadcast_loop send_ok m excl reg)" and e: "fst d = u"
    obtain ws m' where "d = (u, ws, m')" using e by (cases d) auto
    with d obtain conns where "(u, conns) \<in> set reg" by (auto simp: broadcast_loop_mem)
    then have "u \<in> fst ` set reg" by force
    with assms show False by simp
  qed
  then show ?thesis by (simp add: deliveries_for_def filter_empty_conv)
qed

lemma connect_lookup:
  assumes "connect accept_ok reg s u = Inr reg1"
  shows "map_of reg1 u = Some ((case map_of reg u of None \<Rightarrow> [] | Some c \<Rightarrow> c) @ [s])"
  using assms
  by (auto simp: connect_def Let_def update_conv' split: if_splits option.splits)

lemma disconnect_lookup:
  "map_of (disconnect reg s u) u =
     (case map_of reg u of
        None \<Rightarrow> None
      | Some c \<Rightarrow> if filter (\<lambda>ws. ws \<noteq> s) c = [] then None
                   else Some (filter (\<lambda>ws. ws \<noteq> s) c))"
  by (simp add: disconnect_def Let_def update_conv' delete_conv' split: option.splits)

lemma disconnect_pruned:
  assumes "map_of reg u = Some c" and "filter (\<lambda>ws. ws \<noteq> s) c = []"
  shows "u \<notin> fst ` set (disconnect reg s u)"
  using assms by (simp add: disconnect_def Let_def delete_notin_dom)

lemma ex_broadcast: "broadcast_loop ex_send_ok m None ex_registry = ex_sent m"
  by (simp add: ex_registry_def ex_send_ok_def ex_sent_def)

section \<open>Claims about the registry and the broadcast\<close>

text \<open>
  Claim C8. One call of \<^verbatim>\<open>broadcast\<close> leaves the registry as it was, and its deliveries
  are, bucket by bucket in registry order and skipping the excluded user's bucket, the
  sessions whose send did not raise: a session whose send raises is skipped, the
  sessions after it and the buckets after it are still served, and the failed session
  stays registered. A delivery \<open>(u, ws, m)\<close> is made exactly when \<open>m\<close> is the message,
  \<open>u\<close> is not excluded, the send to \<open>ws\<close> succeeds and \<open>ws\<close> is in a bucket of \<open>u\<close>.
\<close>

theorem broadcast_skips_failed_sessions:
  "fst (broadcast send_ok reg message exclude_user) = reg
   \<and> snd (broadcast send_ok reg message exclude_user)
       = concat (map (\<lambda>(u, conns). if Some u = exclude_user then []
                        else map (\<lambda>ws. (u, ws, message)) (filter send_ok conns)) reg)
   \<and> ((u, ws, m) \<in> set (snd (broadcast send_ok reg message exclude_user)))
       = (m = message \<and> Some u \<noteq> exclude_user \<and> send_ok ws
          \<and> (\<exists>conns. (u, conns) \<in> set reg \<and> ws \<in> set conns))"
  by (simp add: broadcast_def broadcast_loop_concat[symmetric] broadcast_loop_mem)

text \<open>
  In the concrete registry the send to alice's session 1 raises; her session 2 and bob's
  session 3 still receive the message, and the registry is returned with session 1 in it.
\<close>

theorem broadcast_skips_failed_sessions_witness:
  "\<not> ex_send_ok 1 \<and> ex_send_ok 2 \<and> ex_send_ok 3
   \<and> broadcast ex_send_ok ex_registry ex_message None
       = (ex_registry, [(''alice'', 2, ex_message), (''bob'', 3, ex_message)])
   \<and> broadcast ex_send_ok ex_registry ex_message (Some ''bob'')
       = (ex_registry, [(''alice'', 2, ex_message)])"
  using broadcast_skips_failed_sessions[of ex_send_ok ex_registry ex_message None]
        broadcast_skips_failed_sessions[of ex_send_ok ex_registry ex_message "Some ''bob''"]
  by (simp add: prod_eq_iff) (simp add: ex_registry_def ex_send_ok_def)

subsection \<open>Connect and disconnect on a registry with one entry per user\<close>

lemma send_each_other:
  assumes "u' \<noteq> u"
  shows "deliveries_for u (send_each send_ok u' m conns) = []"
  using assms by (simp add: send_each_map deliveries_for_def filter_empty_conv)

lemma send_each_own:
  "deliveries_for u (send_each send_ok u m conns) = map (\<lambda>ws. (u, ws, m)) (filter send_ok conns)"
  by (induction conns) (simp_all add: deliveries_for_def)

lemma deliveries_for_append:
  "deliveries_for u (xs @ ys) = deliveries_for u xs @ deliveries_for u ys"
  by (simp add: deliveries_for_def)

text \<open>
  In a registry with one entry per user, a broadcast's deliveries in the bucket of \<open>u\<close>
  are the sessions of \<open>u\<close> whose send succeeds, in order, unless \<open>u\<close> is excluded.
\<close>

lemma deliveries_for_bucket:
  assumes "distinct (map fst reg)"
  shows "deliveries_for u (broadcast_loop send_ok m excl reg) =
           (if Some u = excl then []
            else map (\<lambda>ws. (u, ws, m)) (filter send_ok (sessions_of reg u)))"
  using assms
proof (induction reg)
  case Nil
  then show ?case by (simp add: deliveries_for_def sessions_of_def)
next
  case (Cons a reg)
  obtain u' conns where a: "a = (u', conns)" by (cases a)
  have d: "distinct (map fst reg)" and nk: "u' \<notin> fst ` set reg"
    using Cons.prems a by simp_all
  show ?case
  proof (cases "u' = u")
    case True
    then have "u \<notin> fst ` set reg" using nk by simp
    then have rest: "deliveries_for u (broadcast_loop send_ok m excl reg) = []"
      by (rule broadcast_loop_no_bucket)
    show ?thesis
      unfolding a broadcast_loop.simps
      using True rest
      by (simp add: deliveries_for_append send_each_own sessions_of_def)
  next
    case False
    then have s: "sessions_of ((u', conns) # reg) u = sessions_of reg u"
      by (simp add: sessions_of_def)
    show ?thesis
      unfolding a broadcast_loop.simps s
      using False Cons.IH[OF d]
      by (simp add: deliveries_for_append send_each_other)
  qed
qed

lemma connect_other:
  assumes "connect accept_ok reg s u = Inr reg1" and "u' \<noteq> u"
  shows "map_of reg1 u' = map_of reg u'"
  using assms
  by (auto simp: connect_def Let_def update_conv' split: if_splits option.splits)

lemma connect_distinct:
  assumes "distinct (map fst reg)" and "connect accept_ok reg s u = Inr reg1"
  shows "distinct (map fst reg1)"
  using assms
  by (auto simp: connect_def Let_def distinct_update split: if_splits option.splits)

lemma connect_sessions:
  assumes "connect accept_ok reg s u = Inr reg1"
  shows "sessions_of reg1 u = sessions_of reg u @ [s]"
  using connect_lookup[OF assms] by (simp add: sessions_of_def)

lemma connect_sessions_other:
  assumes "connect accept_ok reg s u = Inr reg1" and "u' \<noteq> u"
  shows "sessions_of reg1 u' = sessions_of reg u'"
  using connect_other[OF assms] by (simp add: sessions_of_def)

lemma disconnect_other:
  assumes "u' \<noteq> u"
  shows "map_of (disconnect reg s u) u' = map_of reg u'"
  using assms
  by (simp add: disconnect_def Let_def update_conv' delete_conv' split: option.splits)

lemma disconnect_distinct:
  assumes "distinct (map fst reg)"
  shows "distinct (map fst (disconnect reg s u))"
  using assms
  by (simp add: disconnect_def Let_def distinct_update distinct_delete split: option.splits)

lemma disconnect_entry:
  "map_of (disconnect reg s u) u =
     (if filter (\<lambda>ws. ws \<noteq> s) (sessions_of reg u) = [] then None
      else Some (filter (\<lambda>ws. ws \<noteq> s) (sessions_of reg u)))"
  by (simp add: disconnect_lookup sessions_of_def split: option.splits)

lemma disconnect_sessions:
  "sessions_of (disconnect reg s u) v =
     (if v = u then filter (\<lambda>ws. ws \<noteq> s) (sessions_of reg u) else sessions_of reg v)"
proof (cases "v = u")
  case True
  then show ?thesis
    by (simp add: sessions_of_def[of "disconnect reg s u"] disconnect_entry)
next
  case False
  then show ?thesis by (simp add: sessions_of_def disconnect_other)
qed

lemma ex_registry_distinct: "distinct (map fst ex_registry)"
  by (simp add: ex_registry_def)

lemma ex_connect_carol:
  "connect True ex_registry 4 ''carol'' = Inr (ex_registry @ [(''carol'', [4])])"
  by (simp add: connect_def ex_registry_def)

lemma ex_connect_carol_again:
  "connect True (ex_registry @ [(''carol'', [4])]) 5 ''carol''
     = Inr (ex_registry @ [(''carol'', [4, 5])])"
  by (simp add: connect_def ex_registry_def)

lemma ex_disconnect_carol:
  "disconnect (ex_registry @ [(''carol'', [4])]) 4 ''carol'' = ex_registry"
  by (simp add: disconnect_def ex_registry_def)

text \<open>
  Against claim C9 as stated: carol holds session 5. She connects session 6 and
  disconnects it again. The registry still has her entry, with session 5, and a
  broadcast delivers to it.
\<close>

theorem connect_disconnect_other_session_counterexample:
  "connect True [(''carol'', [5])] 6 ''carol'' = Inr [(''carol'', [5, 6])]
   \<and> disconnect [(''carol'', [5, 6])] 6 ''carol'' = [(''carol'', [5])]
   \<and> map_of [(''carol'', [5])] ''carol'' = Some [5]
   \<and> ex_send_ok 5
   \<and> snd (broadcast ex_send_ok [(''carol'', [5])] ex_message None)
       = [(''carol'', 5, ex_message)]"
  by (simp add: connect_def disconnect_def broadcast_def ex_send_ok_def)

text \<open>
  Claim C9, amended. In a registry with one entry per user, after a successful
  \<^verbatim>\<open>connect(s, u)\<close> followed by \<^verbatim>\<open>disconnect(s, u)\<close> the bucket of \<open>u\<close> holds exactly the
  sessions it held before other than \<open>s\<close>, and the entry is pruned when these are none;
  the entries of all other users are as before; and a broadcast delivers, for every
  user that is not excluded, to exactly that user's remaining sessions whose send
  succeeds. In particular, when \<open>u\<close> held no session other than \<open>s\<close>, the registry has
  no entry for \<open>u\<close> afterwards and a broadcast delivers to no session of \<open>u\<close>. After a
  second successful connect, of session \<open>s2\<close> for \<open>u\<close>, in place of the disconnect, the
  bucket of \<open>u\<close> is the earlier sessions followed by \<open>s\<close> and \<open>s2\<close>, and one broadcast
  that does not exclude \<open>u\<close> delivers to every one of them whose send succeeds, so to
  both \<open>s\<close> and \<open>s2\<close> when theirs do.
\<close>

theorem connect_disconnect_broadcast:
  assumes "distinct (map fst reg)" and "connect accept_ok reg s u = Inr reg1"
  shows "map_of (disconnect reg1 s u) u =
           (if filter (\<lambda>ws. ws \<noteq> s) (sessions_of reg u) = [] then None
            else Some (filter (\<lambda>ws. ws \<noteq> s) (sessions_of reg u)))
       \<and> (\<forall>v. v \<noteq> u \<longrightarrow> map_of (disconnect reg1 s u) v = map_of reg v)
       \<and> (\<forall>v. deliveries_for v
                 (snd (broadcast send_ok (disconnect reg1 s u) message exclude_user)) =
               (if Some v = exclude_user then []
                else map (\<lambda>ws. (v, ws, message))
                       (filter send_ok
                          (if v = u then filter (\<lambda>ws. ws \<noteq> s) (sessions_of reg u)
                           else sessions_of reg v))))
       \<and> (set (sessions_of reg u) \<subseteq> {s}
            \<longrightarrow> map_of (disconnect reg1 s u) u = None
              \<and> u \<notin> fst ` set (disconnect reg1 s u)
              \<and> deliveries_for u
                  (snd (broadcast send_ok (disconnect reg1 s u) message exclude_user)) = [])
       \<and> (\<forall>accept_ok' s2 reg2. connect accept_ok' reg1 s2 u = Inr reg2
            \<longrightarrow> map_of reg2 u = Some (sessions_of reg u @ [s, s2])
              \<and> (\<forall>v. v \<noteq> u \<longrightarrow> map_of reg2 v = map_of reg v)
              \<and> deliveries_for u (snd (broadcast send_ok reg2 message exclude_user)) =
                  (if Some u = exclude_user then []
                   else map (\<lambda>ws. (u, ws, message))
                          (filter send_ok (sessions_of reg u @ [s, s2]))))"
proof -
  have d1: "distinct (map fst reg1)" using assms by (rule connect_distinct)
  have s1: "sessions_of reg1 u = sessions_of reg u @ [s]"
    using assms(2) by (rule connect_sessions)
  have rest: "filter (\<lambda>ws. ws \<noteq> s) (sessions_of reg1 u)
                = filter (\<lambda>ws. ws \<noteq> s) (sessions_of reg u)"
    by (simp add: s1)
  have a: "map_of (disconnect reg1 s u) u =
           (if filter (\<lambda>ws. ws \<noteq> s) (sessions_of reg u) = [] then None
            else Some (filter (\<lambda>ws. ws \<noteq> s) (sessions_of reg u)))"
    by (simp only: disconnect_entry rest)
  have b: "\<forall>v. v \<noteq> u \<longrightarrow> map_of (disconnect reg1 s u) v = map_of reg v"
    using connect_other[OF assms(2)] by (simp add: disconnect_other)
  have c: "\<forall>v. deliveries_for v
                 (snd (broadcast send_ok (disconnect reg1 s u) message exclude_user)) =
               (if Some v = exclude_user then []
                else map (\<lambda>ws. (v, ws, message))
                       (filter send_ok
                          (if v = u then filter (\<lambda>ws. ws \<noteq> s) (sessions_of reg u)
                           else sessions_of reg v)))"
  proof
    fix v
    have "sessions_of (disconnect reg1 s u) v =
            (if v = u then filter (\<lambda>ws. ws \<noteq> s) (sessions_of reg u) else sessions_of reg v)"
      using connect_sessions_other[OF assms(2)]
      by (simp add: disconnect_sessions rest)
    then show "deliveries_for v
                 (snd (broadcast send_ok (disconnect reg1 s u) message exclude_user)) =
               (if Some v = exclude_user then []
                else map (\<lambda>ws. (v, ws, message))
                       (filter send_ok
                          (if v = u then filter (\<lambda>ws. ws \<noteq> s) (sessions_of reg u)
                           else sessions_of reg v)))"
      by (simp only: broadcast_def snd_conv
            deliveries_for_bucket[OF disconnect_distinct[OF d1]])
  qed
  have e: "set (sessions_of reg u) \<subseteq> {s}
            \<longrightarrow> map_of (disconnect reg1 s u) u = None
              \<and> u \<notin> fst ` set (disconnect reg1 s u)
              \<and> deliveries_for u
                  (snd (broadcast send_ok (disconnect reg1 s u) message exclude_user)) = []"
  proof
    assume sub: "set (sessions_of reg u) \<subseteq> {s}"
    then have emp: "filter (\<lambda>ws. ws \<noteq> s) (sessions_of reg u) = []"
      by (auto simp: filter_empty_conv)
    have l: "map_of reg1 u = Some (sessions_of reg u @ [s])"
      using connect_lookup[OF assms(2)] by (simp add: sessions_of_def)
    have emp1: "filter (\<lambda>ws. ws \<noteq> s) (sessions_of reg u @ [s]) = []"
      using emp by simp
    have k: "u \<notin> fst ` set (disconnect reg1 s u)"
      using l emp1 by (rule disconnect_pruned)
    from a emp have n: "map_of (disconnect reg1 s u) u = None" by simp
    from c emp have "deliveries_for u
        (snd (broadcast send_ok (disconnect reg1 s u) message exclude_user)) = []"
      by simp
    with n k show "map_of (disconnect reg1 s u) u = None
              \<and> u \<notin> fst ` set (disconnect reg1 s u)
              \<and> deliveries_for u
                  (snd (broadcast send_ok (disconnect reg1 s u) message exclude_user)) = []"
      by blast
  qed
  have f: "\<forall>accept_ok' s2 reg2. connect accept_ok' reg1 s2 u = Inr reg2
            \<longrightarrow> map_of reg2 u = Some (sessions_of reg u @ [s, s2])
              \<and> (\<forall>v. v \<noteq> u \<longrightarrow> map_of reg2 v = map_of reg v)
              \<and> deliveries_for u (snd (broadcast send_ok reg2 message exclude_user)) =
                  (if Some u = exclude_user then []
                   else map (\<lambda>ws. (u, ws, message))
                          (filter send_ok (sessions_of reg u @ [s, s2])))"
  proof (intro allI impI)
    fix accept_ok' s2 reg2
    assume c2: "connect accept_ok' reg1 s2 u = Inr reg2"
    have d2: "distinct (map fst reg2)" using d1 c2 by (rule connect_distinct)
    have l2: "map_of reg2 u = Some (sessions_of reg u @ [s, s2])"
      using connect_lookup[OF c2] s1 by (simp add: sessions_of_def[of reg1])
    then have s2': "sessions_of reg2 u = sessions_of reg u @ [s, s2]"
      by (simp add: sessions_of_def[of reg2])
    have o: "\<forall>v. v \<noteq> u \<longrightarrow> map_of reg2 v = map_of reg v"
      using connect_other[OF c2] connect_other[OF assms(2)] by simp
    have "deliveries_for u (snd (broadcast send_ok reg2 message exclude_user)) =
                  (if Some u = exclude_user then []
                   else map (\<lambda>ws. (u, ws, message))
                          (filter send_ok (sessions_of reg u @ [s, s2])))"
      by (simp only: broadcast_def snd_conv deliveries_for_bucket[OF d2] s2')
    with l2 o show "map_of reg2 u = Some (sessions_of reg u @ [s, s2])
              \<and> (\<forall>v. v \<noteq> u \<longrightarrow> map_of reg2 v = map_of reg v)
              \<and> deliveries_for u (snd (broadcast send_ok reg2 message exclude_user)) =
                  (if Some u = exclude_user then []
                   else map (\<lambda>ws. (u, ws, message))
                          (filter send_ok (sessions_of reg u @ [s, s2])))"
      by blast
  qed
  from a b c e f show ?thesis by blast
qed

text \<open>
  In the concrete registry carol has no entry. She connects session 4 and disconnects
  it: the registry is the one before, she has no entry, a broadcast makes no delivery
  for her and still reaches alice's session 2. She connects sessions 4 and 5: a
  broadcast delivers to both.
\<close>

theorem connect_disconnect_broadcast_witness:
  "distinct (map fst ex_registry)
   \<and> sessions_of ex_registry ''carol'' = []
   \<and> connect True ex_registry 4 ''carol'' = Inr (ex_registry @ [(''carol'', [4])])
   \<and> disconnect (ex_registry @ [(''carol'', [4])]) 4 ''carol'' = ex_registry
   \<and> map_of (disconnect (ex_registry @ [(''carol'', [4])]) 4 ''carol'') ''carol'' = None
   \<and> deliveries_for ''carol''
       (snd (broadcast ex_send_ok (disconnect (ex_registry @ [(''carol'', [4])]) 4 ''carol'')
               ex_message None)) = []
   \<and> deliveries_for ''alice''
       (snd (broadcast ex_send_ok (disconnect (ex_registry @ [(''carol'', [4])]) 4 ''carol'')
               ex_message None)) = [(''alice'', 2, ex_message)]
   \<and> connect True (ex_registry @ [(''carol'', [4])]) 5 ''carol''
       = Inr (ex_registry @ [(''carol'', [4, 5])])
   \<and> ex_send_ok 4 \<and> ex_send_ok 5
   \<and> deliveries_for ''carol''
       (snd (broadcast ex_send_ok (ex_registry @ [(''carol'', [4, 5])]) ex_message None))
       = [(''carol'', 4, ex_message), (''carol'', 5, ex_message)]"
proof -
  have so: "sessions_of ex_registry ''carol'' = []"
      "sessions_of ex_registry ''alice'' = [1, 2]"
    by (simp_all add: sessions_of_def ex_registry_def)
  have ok: "ex_send_ok 4" "ex_send_ok 5" "ex_send_ok 2" "\<not> ex_send_ok 1"
    by (simp_all add: ex_send_ok_def)
  note t = connect_disconnect_broadcast[OF ex_registry_distinct ex_connect_carol,
             of ex_send_ok ex_message None]
  from t so have a: "map_of (disconnect (ex_registry @ [(''carol'', [4])]) 4 ''carol'')
                       ''carol'' = None"
    by simp
  from t have c: "\<forall>v. deliveries_for v
        (snd (broadcast ex_send_ok (disconnect (ex_registry @ [(''carol'', [4])]) 4 ''carol'')
                ex_message None)) =
        (if Some v = (None :: string option) then []
         else map (\<lambda>ws. (v, ws, ex_message))
                (filter ex_send_ok
                   (if v = ''carol''
                    then filter (\<lambda>ws. ws \<noteq> 4) (sessions_of ex_registry ''carol'')
                    else sessions_of ex_registry v)))"
    by blast
  from c[rule_format, of "''carol''"] so
  have b1: "deliveries_for ''carol''
       (snd (broadcast ex_send_ok (disconnect (ex_registry @ [(''carol'', [4])]) 4 ''carol'')
               ex_message None)) = []"
    by simp
  from c[rule_format, of "''alice''"] so ok
  have b2: "deliveries_for ''alice''
       (snd (broadcast ex_send_ok (disconnect (ex_registry @ [(''carol'', [4])]) 4 ''carol'')
               ex_message None)) = [(''alice'', 2, ex_message)]"
    by simp
  from t have "\<forall>accept_ok' s2 reg2.
        connect accept_ok' (ex_registry @ [(''carol'', [4])]) s2 ''carol'' = Inr reg2
        \<longrightarrow> deliveries_for ''carol'' (snd (broadcast ex_send_ok reg2 ex_message None)) =
              (if Some ''carol'' = (None :: string option) then []
               else map (\<lambda>ws. (''carol'', ws, ex_message))
                      (filter ex_send_ok (sessions_of ex_registry ''carol'' @ [4, s2])))"
    by blast
  from this[rule_format, OF ex_connect_carol_again] so ok
  have b3: "deliveries_for ''carol''
       (snd (broadcast ex_send_ok (ex_registry @ [(''carol'', [4, 5])]) ex_message None))
       = [(''carol'', 4, ex_message), (''carol'', 5, ex_message)]"
    by simp
  from a b1 b2 b3 so ok ex_registry_distinct ex_connect_carol ex_connect_carol_again
       ex_disconnect_carol
  show ?thesis by simp
qed

section \<open>The handlers: what they compute\<close>

lemma prepare_task_status:
  assumes "prepare_task local now new_id cu data = Inr task"
    and "requested_status (tc_status data) = Inr TODO"
  shows "(status task = IN_PROGRESS) = (\<exists>d. tc_due_date data = Some (Aware d) \<and> now \<le> d)"
  using assms
  by (auto simp: prepare_task_def auto_transition_def build_task_def
        split: sum.splits option.splits py_datetime.splits if_splits)

text \<open>The request's start date reaches neither the status nor the stored row.\<close>

lemma prepare_task_ignores_start:
  "prepare_task local now new_id cu (data\<lparr>tc_start_date := sd\<rparr>)
     = prepare_task local now new_id cu data"
  by (simp add: prepare_task_def build_task_def split: sum.split)

lemma create_task_prepared:
  assumes "create_task send_ok local now new_id cu data s = Inr (s', task)"
  shows "prepare_task local now new_id cu data = Inr task"
  using assms by (auto simp: create_task_def Let_def split: sum.splits)

lemma bulk_loop_created:
  assumes "bulk_loop local now gen cu ts tbl created = Inr (tbl', created')"
  shows "length created' = length created + length ts
       \<and> take (length created) created' = created
       \<and> (\<forall>k < length ts. prepare_task local now (gen (length created + k)) cu (ts ! k)
                             = Inr (created' ! (length created + k)))"
  using assms
proof (induction ts arbitrary: tbl created)
  case Nil
  then show ?case by simp
next
  case (Cons t ts)
  from Cons.prems obtain task where
    p: "prepare_task local now (gen (length created)) cu t = Inr task"
    and r: "bulk_loop local now gen cu ts (tbl @ [task]) (created @ [task])
              = Inr (tbl', created')"
    by (auto split: sum.splits)
  from Cons.IH[OF r] have
    len: "length created' = length (created @ [task]) + length ts"
    and tk: "take (length (created @ [task])) created' = created @ [task]"
    and rest: "\<forall>k < length ts.
                 prepare_task local now (gen (length (created @ [task]) + k)) cu (ts ! k)
                   = Inr (created' ! (length (created @ [task]) + k))"
    by blast+
  have tk0: "take (length created) created' = created"
  proof -
    have "take (length created) (take (length (created @ [task])) created')
            = take (length created) (created @ [task])"
      by (simp only: tk)
    then show ?thesis by (simp add: min_def)
  qed
  have at: "created' ! length created = task"
  proof -
    have "take (length (created @ [task])) created' ! length created
            = (created @ [task]) ! length created"
      by (simp only: tk)
    then show ?thesis by simp
  qed
  have "\<forall>k < length (t # ts).
          prepare_task local now (gen (length created + k)) cu ((t # ts) ! k)
            = Inr (created' ! (length created + k))"
  proof (intro allI impI)
    fix k assume k: "k < length (t # ts)"
    show "prepare_task local now (gen (length created + k)) cu ((t # ts) ! k)
            = Inr (created' ! (length created + k))"
    proof (cases k)
      case 0
      then show ?thesis using p at by simp
    next
      case (Suc j)
      then have "j < length ts" using k by simp
      with rest Suc show ?thesis by simp
    qed
  qed
  with len tk0 show ?case by simp
qed

lemma bulk_create_prepared:
  assumes "bulk_create_tasks local now gen cu datas s = Inr (s', created)"
    and "k < length datas"
  shows "k < length created
       \<and> prepare_task local now (gen k) cu (datas ! k) = Inr (created ! k)"
proof -
  from assms(1) obtain tbl where
    "bulk_loop local now gen cu datas (db_tasks s) [] = Inr (tbl, created)"
    by (auto simp: bulk_create_tasks_def Let_def split: sum.splits prod.splits)
  from bulk_loop_created[OF this] assms(2) show ?thesis by simp
qed

subsection \<open>The cache after a handler\<close>

lemma glob_star: "glob_match ''*'' s"
  by (induction s) simp_all

text \<open>A pattern of literal characters followed by \<^verbatim>\<open>*\<close> matches the keys with that prefix.\<close>

lemma glob_literal_prefix:
  assumes "CHR ''*'' \<notin> set lit" and "CHR ''?'' \<notin> set lit"
  shows "glob_match (lit @ ''*'') s = prefix lit s"
  using assms
proof (induction lit arbitrary: s)
  case Nil
  then show ?case by (simp add: glob_star)
next
  case (Cons p lit)
  show ?case
  proof (cases s)
    case Nil
    then show ?thesis using Cons.prems by auto
  next
    case (Cons c cs)
    then show ?thesis using Cons.prems Cons.IH[of cs] by auto
  qed
qed

lemma glob_tasks: "glob_match ''tasks:*'' key = prefix ''tasks:'' key"
  using glob_literal_prefix[of "''tasks:''" key] by simp

lemma glob_analytics: "glob_match ''analytics:*'' key = prefix ''analytics:'' key"
  using glob_literal_prefix[of "''analytics:''" key] by simp

lemma purge_both:
  "cache_delete_pattern (cache_delete_pattern c ''tasks:*'') ''analytics:*'' = purged c"
  by (rule ext) (simp add: cache_delete_pattern_def purged_def glob_tasks glob_analytics)

lemma create_task_cache:
  assumes "create_task send_ok local now new_id cu data s = Inr (s', task)"
  shows "cache s' = purged (cache s)"
  using assms
  by (auto simp: create_task_def Let_def purge_both split: sum.splits)

lemma bulk_create_cache:
  assumes "bulk_create_tasks local now gen cu datas s = Inr (s', created)"
  shows "cache s' = purged (cache s)"
  using assms
  by (auto simp: bulk_create_tasks_def Let_def purge_both split: sum.splits prod.splits)

lemma update_task_cache:
  assumes "update_task send_ok local i upd s = Inr (s', task')"
  shows "cache s' = purged (cache s)"
  using assms
  by (auto simp: update_task_def Let_def purge_both split: sum.splits option.splits)

lemma delete_task_cache:
  assumes "delete_task send_ok i s = Inr s'"
  shows "cache s' = purged (cache s)"
  using assms
  by (auto simp: delete_task_def Let_def purge_both split: sum.splits option.splits)

lemma add_comment_cache:
  assumes "add_comment send_ok render new_id cu ti content s = Inr (s', comment)"
  shows "cache s' = cache s"
  using assms
  by (auto simp: add_comment_def Let_def split: sum.splits option.splits)

lemma update_comment_cache:
  assumes "update_comment render cu ti ci content s = Inr (s', comment')"
  shows "cache s' = cache s"
  using assms
  by (auto simp: update_comment_def Let_def split: sum.splits option.splits if_splits)

lemma delete_comment_cache:
  assumes "delete_comment cu ti ci s = Inr s'"
  shows "cache s' = cache s"
  using assms
  by (auto simp: delete_comment_def Let_def split: sum.splits option.splits if_splits)

subsection \<open>The handlers on the concrete state\<close>

lemma ex_prepare: "prepare_task id 10 20 ex_alice ex_create = Inr ex_created"
  by (simp add: prepare_task_def requested_status_def TaskStatus_of_def auto_transition_def
        requested_priority_def TaskPriority_of_def build_task_def db_instant_def
        ex_create_def ex_created_def ex_row_def ex_alice_def)

lemma ex_prepare_no_start:
  "prepare_task id 10 20 ex_alice (ex_create\<lparr>tc_start_date := None\<rparr>) = Inr ex_created"
  by (simp only: prepare_task_ignores_start ex_prepare)

lemma ex_create_task:
  "create_task ex_send_ok id 10 20 ex_alice ex_create ex_state
     = Inr (ex_state_created, ex_created)"
  by (simp add: create_task_def ex_prepare Let_def broadcast_def)
     (simp add: ex_state_def ex_state_created_def ex_broadcast ex_purged_cache_def
        ex_created_def ex_row_def)

lemma ex_create_task_no_start:
  "create_task ex_send_ok id 10 20 ex_alice (ex_create\<lparr>tc_start_date := None\<rparr>) ex_state
     = Inr (ex_state_created, ex_created)"
  by (simp add: create_task_def ex_prepare_no_start Let_def broadcast_def)
     (simp add: ex_state_def ex_state_created_def ex_broadcast ex_purged_cache_def
        ex_created_def ex_row_def)

lemma ex_bulk_created:
  "bulk_create_tasks id 10 ((+) 20) ex_alice [ex_create] ex_state
     = Inr (ex_state_bulk, [ex_created])"
  by (simp add: bulk_create_tasks_def ex_prepare Let_def)
     (simp add: ex_state_def ex_state_bulk_def ex_purged_cache_def)

lemma ex_find_due: "find_task 10 ex_db = Some ex_due"
  by (simp add: find_task_def ex_db_def ex_due_def ex_row_def)

lemma ex_update_task:
  "update_task ex_send_ok id 10 ex_update ex_state = Inr (ex_state_updated, ex_updated)"
  by (simp add: update_task_def ex_state_def ex_find_due apply_update_def ex_update_def
        TaskStatus_of_def Let_def broadcast_def ex_broadcast write_task_def)
     (simp add: ex_state_updated_def ex_state_def ex_updated_def ex_purged_cache_def
        ex_db_def ex_due_def ex_quiet_def ex_done_def ex_gone_def ex_started_def ex_row_def)

lemma ex_delete_task:
  "delete_task ex_send_ok 10 ex_state = Inr ex_state_deleted"
  by (simp add: delete_task_def ex_state_def ex_find_due Let_def broadcast_def ex_broadcast
        write_task_def)
     (simp add: ex_state_deleted_def ex_state_def ex_purged_cache_def
        ex_db_def ex_due_def ex_quiet_def ex_done_def ex_gone_def ex_started_def ex_row_def)

lemma ex_add_comment:
  "add_comment ex_send_ok id 31 ex_alice 10 ''done?'' ex_state
     = Inr (ex_state_commented, ex_new_comment)"
  by (simp add: add_comment_def ex_state_def ex_find_due Let_def broadcast_def ex_broadcast)
     (simp add: ex_state_commented_def ex_state_def ex_new_comment_def ex_alice_def)

lemma ex_find_comment: "find_comment 30 10 [ex_comment] = Some ex_comment"
  by (simp add: find_comment_def ex_comment_def)

lemma ex_update_comment:
  "update_comment id ex_alice 10 30 ''bye'' ex_state
     = Inr (ex_state_comment_edited, ex_edited_comment)"
  by (simp add: update_comment_def ex_state_def ex_find_comment Let_def write_comment_def)
     (simp add: ex_state_comment_edited_def ex_state_def ex_edited_comment_def ex_comment_def
        ex_alice_def)

lemma ex_delete_comment:
  "delete_comment ex_alice 10 30 ex_state = Inr ex_state_comment_deleted"
  by (simp add: delete_comment_def ex_state_def ex_find_comment Let_def write_comment_def)
     (simp add: ex_state_comment_deleted_def ex_state_def ex_comment_def ex_alice_def)

lemma ex_cache_listing: "ex_cache ''tasks:1:1:10'' = Some ''page''"
  by (simp add: ex_cache_def)

lemma ex_purged:
  "purged ex_cache ''tasks:1:1:10'' = None \<and> purged ex_cache ''analytics:overview:1'' = None
   \<and> purged ex_cache ''session:1'' = Some ''token''"
  by (simp add: purged_def ex_cache_def)


section \<open>Claim about entering IN\_PROGRESS\<close>

text \<open>
  Against claim C5 as stated: a creation request at time 10 with status \<^verbatim>\<open>todo\<close>, due
  date 100 and start date 50, which lies in the future, creates the task with status
  \<open>IN_PROGRESS\<close>; so does the same request without a start date. The stored row has no
  start date in either case.
\<close>

theorem create_in_progress_before_start_counterexample:
  "tc_status ex_create = Some ''todo'' \<and> tc_start_date ex_create = Some (Aware 50)
   \<and> tc_due_date ex_create = Some (Aware 100)
   \<and> create_task ex_send_ok id 10 20 ex_alice ex_create ex_state
        = Inr (ex_state_created, ex_created)
   \<and> create_task ex_send_ok id 10 20 ex_alice (ex_create\<lparr>tc_start_date := None\<rparr>) ex_state
        = Inr (ex_state_created, ex_created)
   \<and> status ex_created = IN_PROGRESS \<and> start_date ex_created = None"
  by (simp add: ex_create_task ex_create_task_no_start)
     (simp add: ex_create_def ex_created_def ex_row_def)

text \<open>
  Claim C5, amended. The startup pass and the overview's inline updates move a row from
  \<open>TODO\<close> to \<open>IN_PROGRESS\<close> only when its start date is present and at or before
  \<open>now\<close>; the sweep never moves a row to \<open>IN_PROGRESS\<close>. Both hold of the table a
  pass leaves, whether it committed or raised. The creation handlers
  \<^verbatim>\<open>create_task\<close> and \<^verbatim>\<open>bulk_create_tasks\<close> decide by the due date instead: a task
  requested with status \<open>TODO\<close> is created \<open>IN_PROGRESS\<close> exactly when the request has a
  due date at or after \<open>now\<close>, whatever its start date.
\<close>

theorem in_progress_entry_conditions:
  "(i < length db \<and> status (db ! i) = TODO
      \<and> status (lifespan_table users now db ! i) = IN_PROGRESS
     \<longrightarrow> sql_le (start_date (db ! i)) now)
   \<and> (i < length db \<and> status (db ! i) = TODO
      \<and> status (overview_transitions now db ! i) = IN_PROGRESS
     \<longrightarrow> sql_le (start_date (db ! i)) now)
   \<and> (i < length db \<and> status (db ! i) \<noteq> IN_PROGRESS
     \<longrightarrow> status (sweep_table users now db ! i) \<noteq> IN_PROGRESS)
   \<and> (create_task send_ok local now new_id cu data s = Inr (s', task)
      \<and> requested_status (tc_status data) = Inr TODO
     \<longrightarrow> (status task = IN_PROGRESS) = (\<exists>d. tc_due_date data = Some (Aware d) \<and> now \<le> d))
   \<and> (bulk_create_tasks local now gen cu datas s = Inr (s'', created) \<and> k < length datas
      \<and> requested_status (tc_status (datas ! k)) = Inr TODO
     \<longrightarrow> k < length created
        \<and> (status (created ! k) = IN_PROGRESS)
            = (\<exists>d. tc_due_date (datas ! k) = Some (Aware d) \<and> now \<le> d))"
proof (intro conjI impI)
  assume "i < length db \<and> status (db ! i) = TODO
      \<and> status (lifespan_table users now db ! i) = IN_PROGRESS"
  then show "sql_le (start_date (db ! i)) now" using lifespan_row by blast
next
  assume "i < length db \<and> status (db ! i) = TODO
      \<and> status (overview_transitions now db ! i) = IN_PROGRESS"
  then show "sql_le (start_date (db ! i)) now" using overview_row by blast
next
  assume a: "i < length db \<and> status (db ! i) \<noteq> IN_PROGRESS"
  then show "status (sweep_table users now db ! i) \<noteq> IN_PROGRESS"
    using sweep_row[of i db users now] by auto
next
  assume a: "create_task send_ok local now new_id cu data s = Inr (s', task)
      \<and> requested_status (tc_status data) = Inr TODO"
  then show "(status task = IN_PROGRESS)
               = (\<exists>d. tc_due_date data = Some (Aware d) \<and> now \<le> d)"
    using prepare_task_status[OF create_task_prepared] by blast
next
  assume a: "bulk_create_tasks local now gen cu datas s = Inr (s'', created)
      \<and> k < length datas \<and> requested_status (tc_status (datas ! k)) = Inr TODO"
  then show "k < length created" using bulk_create_prepared by blast
next
  assume a: "bulk_create_tasks local now gen cu datas s = Inr (s'', created)
      \<and> k < length datas \<and> requested_status (tc_status (datas ! k)) = Inr TODO"
  then have "prepare_task local now (gen k) cu (datas ! k) = Inr (created ! k)"
    using bulk_create_prepared by blast
  from prepare_task_status[OF this] a
  show "(status (created ! k) = IN_PROGRESS)
            = (\<exists>d. tc_due_date (datas ! k) = Some (Aware d) \<and> now \<le> d)" by blast
qed

text \<open>
  At time 10: row 4 of the concrete database started at 3, and the startup pass and the
  overview move it to \<open>IN_PROGRESS\<close> while the sweep leaves it \<open>TODO\<close>; the concrete
  creation request is due at 100 and yields an \<open>IN_PROGRESS\<close> task, alone and in a bulk
  request.
\<close>

theorem in_progress_entry_conditions_witness:
  "status (ex_db ! 4) = TODO
   \<and> status (lifespan_table ex_users 10 ex_db ! 4) = IN_PROGRESS
   \<and> status (overview_transitions 10 ex_db ! 4) = IN_PROGRESS
   \<and> sql_le (start_date (ex_db ! 4)) 10
   \<and> status (sweep_table ex_users 10 ex_db ! 4) = TODO
   \<and> create_task ex_send_ok id 10 20 ex_alice ex_create ex_state
       = Inr (ex_state_created, ex_created)
   \<and> bulk_create_tasks id 10 ((+) 20) ex_alice [ex_create] ex_state
       = Inr (ex_state_bulk, [ex_created])
   \<and> requested_status (tc_status ex_create) = Inr TODO
   \<and> status ex_created = IN_PROGRESS
   \<and> tc_due_date ex_create = Some (Aware 100)"
proof -
  have a: "(4::nat) < length ex_db" "status (ex_db ! 4) = TODO"
    by (simp_all add: ex_db_def ex_started_def ex_row_def)
  have b: "status (lifespan_table ex_users 10 ex_db ! 4) = IN_PROGRESS"
    by (simp add: lifespan_table_def ex_lifespan ex_started_up_def)
  have c: "status (overview_transitions 10 ex_db ! 4) = IN_PROGRESS"
    using b lifespan_tasks_distinct[OF ex_db_distinct ex_lifespan]
    by (simp add: lifespan_table_def ex_lifespan)
  have d: "status (sweep_table ex_users 10 ex_db ! 4) = TODO"
    by (simp add: ex_sweep_table ex_started_def ex_row_def)
  have e: "requested_status (tc_status ex_create) = Inr TODO"
    by (simp add: ex_create_def requested_status_def TaskStatus_of_def)
  have f: "tc_due_date ex_create = Some (Aware 100)" by (simp add: ex_create_def)
  note t = in_progress_entry_conditions[of 4 ex_db ex_users 10 ex_send_ok id 20 ex_alice
            ex_create ex_state ex_state_created ex_created "(+) 20" "[ex_create]"
            ex_state_bulk "[ex_created]" 0]
  from t a b have g: "sql_le (start_date (ex_db ! 4)) 10" by blast
  from t ex_create_task e f have h: "status ex_created = IN_PROGRESS" by simp
  from a b c d e f g h ex_create_task ex_bulk_created show ?thesis by simp
qed

section \<open>Claim about cache invalidation\<close>

text \<open>
  Against claim C7 as stated: the concrete state caches a task listing under
  \<^verbatim>\<open>tasks:1:1:10\<close>. Adding a comment, editing a comment and deleting a comment each
  succeed and leave that key in the cache.
\<close>

theorem comment_mutations_keep_cache_counterexample:
  "cache ex_state ''tasks:1:1:10'' = Some ''page''
   \<and> add_comment ex_send_ok id 31 ex_alice 10 ''done?'' ex_state
       = Inr (ex_state_commented, ex_new_comment)
   \<and> cache ex_state_commented ''tasks:1:1:10'' = Some ''page''
   \<and> update_comment id ex_alice 10 30 ''bye'' ex_state
       = Inr (ex_state_comment_edited, ex_edited_comment)
   \<and> cache ex_state_comment_edited ''tasks:1:1:10'' = Some ''page''
   \<and> delete_comment ex_alice 10 30 ex_state = Inr ex_state_comment_deleted
   \<and> cache ex_state_comment_deleted ''tasks:1:1:10'' = Some ''page''"
  by (simp add: ex_add_comment ex_update_comment ex_delete_comment)
     (simp add: ex_state_def ex_state_commented_def ex_state_comment_edited_def
        ex_state_comment_deleted_def ex_cache_listing)

text \<open>
  Claim C7, amended. Every task mutation that succeeds (\<^verbatim>\<open>create_task\<close>,
  \<^verbatim>\<open>bulk_create_tasks\<close>, \<^verbatim>\<open>update_task\<close>, \<^verbatim>\<open>delete_task\<close>) leaves a cache without any
  key that starts with \<^verbatim>\<open>tasks:\<close> or \<^verbatim>\<open>analytics:\<close> and with every other key as before.
  The comment mutations (\<^verbatim>\<open>add_comment\<close>, \<^verbatim>\<open>update_comment\<close>, \<^verbatim>\<open>delete_comment\<close>) leave
  the cache as it was.
\<close>

theorem task_mutations_purge_cache:
  "(create_task send_ok local now new_id cu data s = Inr (s1, task)
      \<longrightarrow> cache s1 = purged (cache s))
   \<and> (bulk_create_tasks local now gen cu datas s = Inr (s2, created)
      \<longrightarrow> cache s2 = purged (cache s))
   \<and> (update_task send_ok local i upd s = Inr (s3, task')
      \<longrightarrow> cache s3 = purged (cache s))
   \<and> (delete_task send_ok i s = Inr s4 \<longrightarrow> cache s4 = purged (cache s))
   \<and> (add_comment send_ok render cid cu ti content s = Inr (s5, comment)
      \<longrightarrow> cache s5 = cache s)
   \<and> (update_comment render cu ti ci content' s = Inr (s6, comment')
      \<longrightarrow> cache s6 = cache s)
   \<and> (delete_comment cu ti ci s = Inr s7 \<longrightarrow> cache s7 = cache s)"
  by (intro conjI impI)
     (erule create_task_cache bulk_create_cache update_task_cache delete_task_cache
        add_comment_cache update_comment_cache delete_comment_cache)+

text \<open>
  On the concrete state all seven handlers succeed. After each task handler the cached
  listing and the cached overview are gone and the unrelated key \<^verbatim>\<open>session:1\<close> is
  kept; after each comment handler the cache is the one before.
\<close>

theorem task_mutations_purge_cache_witness:
  "create_task ex_send_ok id 10 20 ex_alice ex_create ex_state
       = Inr (ex_state_created, ex_created)
   \<and> bulk_create_tasks id 10 ((+) 20) ex_alice [ex_create] ex_state
       = Inr (ex_state_bulk, [ex_created])
   \<and> update_task ex_send_ok id 10 ex_update ex_state = Inr (ex_state_updated, ex_updated)
   \<and> delete_task ex_send_ok 10 ex_state = Inr ex_state_deleted
   \<and> add_comment ex_send_ok id 31 ex_alice 10 ''done?'' ex_state
       = Inr (ex_state_commented, ex_new_comment)
   \<and> update_comment id ex_alice 10 30 ''bye'' ex_state
       = Inr (ex_state_comment_edited, ex_edited_comment)
   \<and> delete_comment ex_alice 10 30 ex_state = Inr ex_state_comment_deleted
   \<and> cache ex_state_created = purged ex_cache
   \<and> cache ex_state_bulk = purged ex_cache
   \<and> cache ex_state_updated = purged ex_cache
   \<and> cache ex_state_deleted = purged ex_cache
   \<and> cache ex_state_commented = ex_cache
   \<and> cache ex_state_comment_edited = ex_cache
   \<and> cache ex_state_comment_deleted = ex_cache
   \<and> purged ex_cache ''tasks:1:1:10'' = None
   \<and> purged ex_cache ''analytics:overview:1'' = None
   \<and> purged ex_cache ''session:1'' = Some ''token''"
proof -
  note t = task_mutations_purge_cache[where send_ok = ex_send_ok and local = id and now = 10
      and new_id = 20 and cu = ex_alice and data = ex_create and s = ex_state
      and ?s1.0 = ex_state_created and task = ex_created and gen = "(+) 20"
      and datas = "[ex_create]" and ?s2.0 = ex_state_bulk and created = "[ex_created]"
      and i = 10 and upd = ex_update and ?s3.0 = ex_state_updated and task' = ex_updated
      and ?s4.0 = ex_state_deleted and render = id and cid = 31 and ti = 10
      and content = "''done?''" and ?s5.0 = ex_state_commented and comment = ex_new_comment
      and ci = 30 and content' = "''bye''" and ?s6.0 = ex_state_comment_edited
      and comment' = ex_edited_comment and ?s7.0 = ex_state_comment_deleted]
  have c: "cache ex_state = ex_cache" by (simp add: ex_state_def)
  from t ex_create_task ex_bulk_created ex_update_task ex_delete_task ex_add_comment
       ex_update_comment ex_delete_comment
  have "cache ex_state_created = purged (cache ex_state)
      \<and> cache ex_state_bulk = purged (cache ex_state)
      \<and> cache ex_state_updated = purged (cache ex_state)
      \<and> cache ex_state_deleted = purged (cache ex_state)
      \<and> cache ex_state_commented = cache ex_state
      \<and> cache ex_state_comment_edited = cache ex_state
      \<and> cache ex_state_comment_deleted = cache ex_state"
    by blast
  with c ex_purged ex_create_task ex_bulk_created ex_update_task ex_delete_task ex_add_comment
       ex_update_comment ex_delete_comment
  show ?thesis by simp
qed


end
